theory Spec2Isabelle
  imports Complex_Main "HOL-Library.Monad_Syntax"
begin

section \<open>Python strings and builtins used by the colour code\<close>

text \<open>
  A Python \<open>str\<close> is modelled as a \<open>string\<close> whose characters are code points below 256
  (Latin-1). Python integers are \<open>int\<close>, Python floats are idealised as \<open>real\<close>:
  \<open>x ** 2.4\<close> on a positive base is \<open>powr\<close> and \<open>x ** 0.5\<close> on a non-negative base is
  \<open>sqrt\<close>. A raised exception is a value of \<open>py_error\<close> on the left of a sum; a
  \<open>ValueError\<close> that the source catches at once is \<open>None\<close> of an option. The
  interpreter's limit on the number of digits that \<open>int\<close> reads from a decimal string
  is not modelled.
\<close>

datatype py_error = ValueError | IndexError

text \<open>\<open>str.isspace\<close>, which is also the class \<open>\s\<close> of \<open>re\<close> on \<open>str\<close> patterns.\<close>

definition py_isspace :: "char \<Rightarrow> bool" where
  "py_isspace c = (c \<in> set [CHR 0x09, CHR 0x0A, CHR 0x0B, CHR 0x0C, CHR 0x0D,
                             CHR 0x1C, CHR 0x1D, CHR 0x1E, CHR 0x1F, CHR 0x20,
                             CHR 0x85, CHR 0xA0])"

text \<open>\<open>str.strip()\<close> with no argument.\<close>

definition py_strip :: "string \<Rightarrow> string" where
  "py_strip s = rev (dropWhile py_isspace (rev (dropWhile py_isspace s)))"

definition upper_chars :: string where
  "upper_chars = ''ABCDEFGHIJKLMNOPQRSTUVWXYZ'' @
     [CHR 0xC0, CHR 0xC1, CHR 0xC2, CHR 0xC3, CHR 0xC4, CHR 0xC5, CHR 0xC6, CHR 0xC7,
      CHR 0xC8, CHR 0xC9, CHR 0xCA, CHR 0xCB, CHR 0xCC, CHR 0xCD, CHR 0xCE, CHR 0xCF,
      CHR 0xD0, CHR 0xD1, CHR 0xD2, CHR 0xD3, CHR 0xD4, CHR 0xD5, CHR 0xD6,
      CHR 0xD8, CHR 0xD9, CHR 0xDA, CHR 0xDB, CHR 0xDC, CHR 0xDD, CHR 0xDE]"

definition lower_chars :: string where
  "lower_chars = ''abcdefghijklmnopqrstuvwxyz'' @
     [CHR 0xE0, CHR 0xE1, CHR 0xE2, CHR 0xE3, CHR 0xE4, CHR 0xE5, CHR 0xE6, CHR 0xE7,
      CHR 0xE8, CHR 0xE9, CHR 0xEA, CHR 0xEB, CHR 0xEC, CHR 0xED, CHR 0xEE, CHR 0xEF,
      CHR 0xF0, CHR 0xF1, CHR 0xF2, CHR 0xF3, CHR 0xF4, CHR 0xF5, CHR 0xF6,
      CHR 0xF8, CHR 0xF9, CHR 0xFA, CHR 0xFB, CHR 0xFC, CHR 0xFD, CHR 0xFE]"

text \<open>\<open>str.lower()\<close>, character by character.\<close>

definition py_lower_char :: "char \<Rightarrow> char" where
  "py_lower_char c = (case map_of (zip upper_chars lower_chars) c of Some l \<Rightarrow> l | None \<Rightarrow> c)"

definition py_lower :: "string \<Rightarrow> string" where
  "py_lower s = map py_lower_char s"

text \<open>\<open>s.lstrip('#')\<close>: every leading \<open>#\<close> goes.\<close>

definition lstrip_hash :: "string \<Rightarrow> string" where
  "lstrip_hash s = dropWhile (\<lambda>c. c = CHR ''#'') s"

definition startswith :: "string \<Rightarrow> string \<Rightarrow> bool" where
  "startswith s p = (take (length p) s = p)"

text \<open>\<open>''.join(c * 2 for c in s)\<close>.\<close>

definition double_chars :: "string \<Rightarrow> string" where
  "double_chars s = concat (map (\<lambda>c. [c, c]) s)"

text \<open>The value of one hexadecimal digit, either case.\<close>

definition hex_digit_value :: "char \<Rightarrow> int option" where
  "hex_digit_value c =
     map_of (zip ''0123456789abcdefABCDEF''
                 [0, 1, 2, 3, 4, 5, 6, 7, 8, 9, 10, 11, 12, 13, 14, 15, 10, 11, 12, 13, 14, 15]) c"

text \<open>
  The white space that \<open>int(s, 16)\<close> strips from both ends of \<open>s\<close>: the ASCII
  white space and the two Latin-1 spaces.
\<close>

definition int_space :: "char \<Rightarrow> bool" where
  "int_space c = (c \<in> set [CHR 0x09, CHR 0x0A, CHR 0x0B, CHR 0x0C, CHR 0x0D, CHR 0x20,
                            CHR 0x85, CHR 0xA0])"

text \<open>
  \<open>int(s, 16)\<close> for a string \<open>s\<close> of exactly two characters \<open>a\<close>, \<open>b\<close>, the only
  way \<open>hex_to_rgb\<close> calls it. Python accepts two hex digits, a sign and one hex digit,
  and one hex digit with white space before or after it; everything else (among it
  \<open>0x\<close> without digits and an underscore at either end) raises \<open>ValueError\<close>, here
  \<open>None\<close>.
\<close>

definition int16_pair :: "char \<Rightarrow> char \<Rightarrow> int option" where
  "int16_pair a b =
     (case (hex_digit_value a, hex_digit_value b) of
        (Some x, Some y) \<Rightarrow> Some (16 * x + y)
      | (Some x, None) \<Rightarrow> (if int_space b then Some x else None)
      | (None, Some y) \<Rightarrow>
          (if a = CHR ''+'' \<or> int_space a then Some y
           else if a = CHR ''-'' then Some (- y) else None)
      | (None, None) \<Rightarrow> None)"

section \<open>\<open>utils/color_utils.py\<close>\<close>

text \<open>
  \<open>hex_to_rgb\<close>: strip \<open>#\<close>, double a three-character string, give up with black
  unless six characters remain, then read three pairs; a \<open>ValueError\<close> of any pair
  is caught and gives black.
\<close>

definition hex_to_rgb :: "string \<Rightarrow> int \<times> int \<times> int" where
  "hex_to_rgb hex_color =
     (let h0 = lstrip_hash hex_color;
          h = (if length h0 = 3 then double_chars h0 else h0)
      in if length h \<noteq> 6 then (0, 0, 0)
         else (case (int16_pair (h ! 0) (h ! 1), int16_pair (h ! 2) (h ! 3),
                     int16_pair (h ! 4) (h ! 5)) of
                 (Some r, Some g, Some b) \<Rightarrow> (r, g, b)
               | _ \<Rightarrow> (0, 0, 0)))"

text \<open>The digits of \<open>format(n, 'x')\<close> for \<open>n \<ge> 0\<close>.\<close>

function hex_digits :: "nat \<Rightarrow> string" where
  "hex_digits n =
     (if n < 16 then [''0123456789abcdef'' ! n]
      else hex_digits (n div 16) @ [''0123456789abcdef'' ! (n mod 16)])"
  by pat_completeness auto
termination
  by (relation "measure id") auto

declare hex_digits.simps [simp del]

text \<open>
  \<open>format(i, '02x')\<close>: the sign, then the digits, padded with zeros on the left to a
  width of two characters, sign included.
\<close>

definition format_02x :: "int \<Rightarrow> string" where
  "format_02x i =
     (if i < 0 then CHR ''-'' # hex_digits (nat (- i))
      else (let d = hex_digits (nat i) in if length d < 2 then CHR ''0'' # d else d))"

definition rgb_to_hex :: "int \<Rightarrow> int \<Rightarrow> int \<Rightarrow> string" where
  "rgb_to_hex r g b = ''#'' @ format_02x r @ format_02x g @ format_02x b"

definition gamma :: "real \<Rightarrow> real" where
  "gamma c = (if c \<le> 0.03928 then c / 12.92 else ((c + 0.055) / 1.055) powr 2.4)"

definition luminance :: "string \<Rightarrow> real" where
  "luminance hex_color =
     (case hex_to_rgb hex_color of
        (r, g, b) \<Rightarrow>
          0.2126 * gamma (real_of_int r / 255.0) + 0.7152 * gamma (real_of_int g / 255.0)
          + 0.0722 * gamma (real_of_int b / 255.0))"

definition is_dark_theme :: "string \<Rightarrow> bool" where
  "is_dark_theme background_color = (luminance background_color < 0.5)"

definition get_text_color :: "string \<Rightarrow> string" where
  "get_text_color background_color =
     (if is_dark_theme background_color then ''#ffffff'' else ''#000000'')"

subsection \<open>\<open>parse_rgb_string\<close>\<close>

text \<open>The class \<open>\d\<close>: among the code points below 256 only the ASCII digits.\<close>

definition re_digit :: "char \<Rightarrow> bool" where
  "re_digit c = (c \<in> set ''0123456789'')"

text \<open>
  \<open>int(s)\<close> for a string of decimal digits, the only strings that the groups
  \<open>(\d+)\<close> capture; on those the value of a hex digit is the value of the digit.
\<close>

definition int_of_digits :: "string \<Rightarrow> int" where
  "int_of_digits s =
     foldl (\<lambda>a c. 10 * a + (case hex_digit_value c of Some d \<Rightarrow> d | None \<Rightarrow> 0)) 0 s"

text \<open>A literal of a pattern: the input has to start with it; the rest is returned.\<close>

definition lit :: "string \<Rightarrow> string \<Rightarrow> string option" where
  "lit p s = (if startswith s p then Some (drop (length p) s) else None)"

text \<open>\<open>(\d+)\<close>: the longest run of digits, at least one; the run and the rest.\<close>

definition digits1 :: "string \<Rightarrow> (string \<times> string) option" where
  "digits1 s =
     (let d = takeWhile re_digit s
      in if d = [] then None else Some (d, dropWhile re_digit s))"

text \<open>
  The common start \<open>rgba?\s*\(\s*(\d+)\s*,\s*(\d+)\s*,\s*(\d+)\<close> of the pattern
  of \<open>parse_rgb_string\<close> and of \<open>RGB_PATTERN\<close>, tried at the start of the input.
  Every repetition in it is followed by a character outside its class, so the greedy
  choice is the only one that can succeed and the match is computed left to right. The
  result is the three groups and the input after the third one.
\<close>

definition rgb_channels :: "string \<Rightarrow> ((string \<times> string \<times> string) \<times> string) option" where
  "rgb_channels s =
     do {
       s1 \<leftarrow> lit ''rgb'' s;
       s2 \<leftarrow> Some (case lit ''a'' s1 of Some t \<Rightarrow> t | None \<Rightarrow> s1);
       s3 \<leftarrow> lit ''('' (dropWhile py_isspace s2);
       (r, s4) \<leftarrow> digits1 (dropWhile py_isspace s3);
       s5 \<leftarrow> lit '','' (dropWhile py_isspace s4);
       (g, s6) \<leftarrow> digits1 (dropWhile py_isspace s5);
       s7 \<leftarrow> lit '','' (dropWhile py_isspace s6);
       (b, s8) \<leftarrow> digits1 (dropWhile py_isspace s7);
       Some ((r, g, b), s8)
     }"

text \<open>\<open>re.search\<close>: the match at the leftmost position that has one.\<close>

fun rgb_search :: "string \<Rightarrow> (string \<times> string \<times> string) option" where
  "rgb_search [] = map_option fst (rgb_channels [])"
| "rgb_search (c # cs) =
     (case rgb_channels (c # cs) of Some (m, rest) \<Rightarrow> Some m | None \<Rightarrow> rgb_search cs)"

definition parse_rgb_string :: "string \<Rightarrow> string option" where
  "parse_rgb_string rgb_str =
     (case rgb_search rgb_str of
        Some (r, g, b) \<Rightarrow> Some (rgb_to_hex (int_of_digits r) (int_of_digits g) (int_of_digits b))
      | None \<Rightarrow> None)"

subsection \<open>\<open>normalize_color\<close>\<close>

definition normalize_color :: "string \<Rightarrow> string option" where
  "normalize_color color0 =
     (let color = py_lower (py_strip color0)
      in if startswith color ''#'' then
           (let h0 = lstrip_hash color;
                hex_color = (if length h0 = 3 then double_chars h0 else h0)
            in if length hex_color = 6 \<and> list_all (\<lambda>c. c \<in> set ''0123456789abcdef'') hex_color
               then Some (''#'' @ hex_color) else None)
         else if startswith color ''rgb'' then parse_rgb_string color
         else None)"

subsection \<open>Distance, grey detection, saturation\<close>

definition color_distance :: "string \<Rightarrow> string \<Rightarrow> real" where
  "color_distance color1 color2 =
     (case (hex_to_rgb color1, hex_to_rgb color2) of
        ((r1, g1, b1), (r2, g2, b2)) \<Rightarrow>
          sqrt (real_of_int ((r1 - r2)\<^sup>2 + (g1 - g2)\<^sup>2 + (b1 - b2)\<^sup>2)))"

definition is_grayscale :: "string \<Rightarrow> int \<Rightarrow> bool" where
  "is_grayscale hex_color tolerance =
     (case hex_to_rgb hex_color of
        (r, g, b) \<Rightarrow> max (max r g) b - min (min r g) b \<le> tolerance)"

definition saturation :: "string \<Rightarrow> real" where
  "saturation hex_color =
     (case hex_to_rgb hex_color of
        (r, g, b) \<Rightarrow>
          (let max_c = max (max r g) b; min_c = min (min r g) b
           in if max_c = 0 then 0 else real_of_int (max_c - min_c) / real_of_int max_c))"

section \<open>\<open>extractors/color_extractor.py\<close>: the classifier\<close>

text \<open>
  The dictionary that \<open>_classify_colors\<close> returns has the five keys \<open>primary\<close>,
  \<open>accent\<close>, \<open>background\<close>, \<open>text\<close> and \<open>theme\<close>; the field \<open>text_color\<close> is the key
  \<open>text\<close>.
\<close>

record palette =
  primary :: string
  accent :: string
  background :: string
  text_color :: string
  theme :: string

text \<open>\<open>counts.get(c, 0)\<close> on the \<open>Counter\<close>.\<close>

definition count_of :: "(string \<rightharpoonup> int) \<Rightarrow> string \<Rightarrow> int" where
  "count_of counts c = (case counts c of None \<Rightarrow> 0 | Some n \<Rightarrow> n)"

text \<open>
  \<open>min(xs, key=f)\<close> and \<open>max(xs, key=f)\<close>: \<open>ValueError\<close> on an empty list; the
  scan goes left to right and replaces the candidate only on a strictly smaller
  (larger) key, so the first of several equal keys stays.
\<close>

fun py_min_key :: "('a \<Rightarrow> 'k::linorder) \<Rightarrow> 'a list \<Rightarrow> py_error + 'a" where
  "py_min_key f [] = Inl ValueError"
| "py_min_key f (x # xs) = Inr (fold (\<lambda>y m. if f y < f m then y else m) xs x)"

fun py_max_key :: "('a \<Rightarrow> 'k::linorder) \<Rightarrow> 'a list \<Rightarrow> py_error + 'a" where
  "py_max_key f [] = Inl ValueError"
| "py_max_key f (x # xs) = Inr (fold (\<lambda>y m. if f y > f m then y else m) xs x)"

text \<open>\<open>xs[0]\<close> and \<open>xs[-1]\<close>: \<open>IndexError\<close> on an empty list.\<close>

definition item_first :: "'a list \<Rightarrow> py_error + 'a" where
  "item_first xs = (case xs of [] \<Rightarrow> Inl IndexError | x # _ \<Rightarrow> Inr x)"

definition item_last :: "'a list \<Rightarrow> py_error + 'a" where
  "item_last xs = (if xs = [] then Inl IndexError else Inr (last xs))"

text \<open>Lines 204 and 205: the very dark and the very light colours, in corpus order.\<close>

definition dark_colors :: "string list \<Rightarrow> string list" where
  "dark_colors colors = filter (\<lambda>c. luminance c < 0.1) colors"

definition light_colors :: "string list \<Rightarrow> string list" where
  "light_colors colors = filter (\<lambda>c. luminance c > 0.9) colors"

text \<open>
  Lines 208 to 211, the truth value of \<open>is_dark_theme\<close>. \<open>sorted\<close> is stable, as
  \<open>sort_key\<close> is.
\<close>

definition theme_is_dark :: "string list \<Rightarrow> (string \<rightharpoonup> int) \<Rightarrow> bool" where
  "theme_is_dark colors counts =
     (let dark_count = sum_list (map (count_of counts) (dark_colors colors));
          light_count = sum_list (map (count_of counts) (light_colors colors))
      in dark_count > light_count \<or> (dark_colors colors \<noteq> [] \<and> light_colors colors = []))"

text \<open>Lines 201 and 214 to 219.\<close>

definition choose_background :: "string list \<Rightarrow> (string \<rightharpoonup> int) \<Rightarrow> py_error + string" where
  "choose_background colors counts =
     (let sorted_by_lum = sort_key luminance colors
      in if theme_is_dark colors counts \<and> dark_colors colors \<noteq> []
           then py_min_key luminance (dark_colors colors)
         else if light_colors colors \<noteq> []
           then py_max_key luminance (light_colors colors)
         else if theme_is_dark colors counts then item_last sorted_by_lum
         else item_first sorted_by_lum)"

text \<open>Lines 222 to 225; \<open>is_grayscale\<close> is called with its default tolerance 10.\<close>

definition chromatic :: "string \<Rightarrow> string \<Rightarrow> bool" where
  "chromatic bg c = (\<not> is_grayscale c 10 \<and> color_distance c bg > 50)"

definition chromatic_colors :: "string list \<Rightarrow> string \<Rightarrow> string list" where
  "chromatic_colors colors bg = filter (chromatic bg) colors"

text \<open>Lines 228 to 233.\<close>

definition choose_primary ::
  "string list \<Rightarrow> (string \<rightharpoonup> int) \<Rightarrow> string \<Rightarrow> py_error + string" where
  "choose_primary colors counts bg =
     (if chromatic_colors colors bg \<noteq> []
        then py_max_key (count_of counts) (chromatic_colors colors bg)
      else (let non_bg = filter (\<lambda>c. c \<noteq> bg) colors
            in if non_bg \<noteq> [] then py_max_key (count_of counts) non_bg
               else Inr ''#333333''))"

text \<open>Lines 236 to 243.\<close>

definition choose_accent :: "string list \<Rightarrow> string \<Rightarrow> string \<Rightarrow> py_error + string" where
  "choose_accent colors bg prim =
     (let accent_candidates =
            filter (\<lambda>c. c \<noteq> prim \<and> color_distance c prim > 30) (chromatic_colors colors bg)
      in if accent_candidates \<noteq> [] then py_max_key saturation accent_candidates
         else Inr prim)"

definition default_palette :: palette where
  "default_palette =
     \<lparr>primary = ''#333333'', accent = ''#666666'', background = ''#ffffff'',
      text_color = ''#000000'', theme = ''light''\<rparr>"

text \<open>\<open>_classify_colors\<close>; an exception of any step ends the call.\<close>

definition classify_colors :: "string list \<Rightarrow> (string \<rightharpoonup> int) \<Rightarrow> py_error + palette" where
  "classify_colors colors counts =
     (if colors = [] then Inr default_palette
      else
        (case choose_background colors counts of
           Inl e \<Rightarrow> Inl e
         | Inr bg \<Rightarrow>
             (case choose_primary colors counts bg of
                Inl e \<Rightarrow> Inl e
              | Inr prim \<Rightarrow>
                  (case choose_accent colors bg prim of
                     Inl e \<Rightarrow> Inl e
                   | Inr acc \<Rightarrow>
                       Inr \<lparr>primary = prim, accent = acc, background = bg,
                            text_color =
                              (if theme_is_dark colors counts then ''#ffffff'' else ''#000000''),
                            theme =
                              (if theme_is_dark colors counts then ''dark'' else ''light'')\<rparr>))))"

text \<open>
  Lines 82 to 90 of \<open>extract_from_url\<close>: the semantic colours replace the classified
  ones. \<open>semantic_colors.get(k)\<close> is tested for truth, so a missing key and an empty
  string both leave the role alone.
\<close>

definition apply_semantic :: "(string \<rightharpoonup> string) \<Rightarrow> palette \<Rightarrow> palette" where
  "apply_semantic semantic_colors classified =
     (let c1 = (case semantic_colors ''primary'' of
                  Some v \<Rightarrow> if v \<noteq> [] then classified\<lparr>primary := v\<rparr> else classified
                | None \<Rightarrow> classified);
          c2 = (case semantic_colors ''accent'' of
                  Some v \<Rightarrow> if v \<noteq> [] then c1\<lparr>accent := v\<rparr> else c1
                | None \<Rightarrow> c1)
      in (case semantic_colors ''background'' of
            Some v \<Rightarrow>
              if v \<noteq> [] then
                (let c3 = c2\<lparr>background := v\<rparr>;
                     c4 = c3\<lparr>theme := (if luminance v < 0.5 then ''dark'' else ''light'')\<rparr>
                 in c4\<lparr>text_color := (if theme c4 = ''dark'' then ''#ffffff'' else ''#000000'')\<rparr>)
              else c2
          | None \<Rightarrow> c2))"

section \<open>\<open>extractors/color_extractor.py\<close>: the collector\<close>

text \<open>
  \<open>pattern.findall(css)\<close> for a pattern that never matches the empty string: the
  matches are tried from left to right, and the scan goes on at the end of each match.
  A matcher returns the value that \<open>findall\<close> lists and the input after the match;
  the counter is the number of characters still inside the last match.
\<close>

fun findall_from :: "(string \<Rightarrow> ('a \<times> string) option) \<Rightarrow> nat \<Rightarrow> string \<Rightarrow> 'a list" where
  "findall_from m k [] = []"
| "findall_from m (Suc k) (c # cs) = findall_from m k cs"
| "findall_from m 0 (c # cs) =
     (case m (c # cs) of
        Some (v, rest) \<Rightarrow> v # findall_from m (length cs - length rest) cs
      | None \<Rightarrow> findall_from m 0 cs)"

definition findall :: "(string \<Rightarrow> ('a \<times> string) option) \<Rightarrow> string \<Rightarrow> 'a list" where
  "findall m s = findall_from m 0 s"

definition is_hex :: "char \<Rightarrow> bool" where
  "is_hex c = (c \<in> set ''0123456789abcdefABCDEF'')"

text \<open>
  The class \<open>\w\<close> on code points below 256: the letters, the digits, the underscore
  and the Latin-1 characters that \<open>str.isalnum\<close> accepts.
\<close>

definition re_word :: "char \<Rightarrow> bool" where
  "re_word c =
     (c \<in> set (upper_chars @ lower_chars @ ''0123456789_'' @
               [CHR 0xAA, CHR 0xB2, CHR 0xB3, CHR 0xB5, CHR 0xB9, CHR 0xBA, CHR 0xBC,
                CHR 0xBD, CHR 0xBE, CHR 0xDF, CHR 0xFF]))"

text \<open>
  \<open>HEX_PATTERN = #([0-9a-fA-F]{3,6})\b\<close>. The group takes up to six hex digits;
  the boundary then asks for the end of the input or a character outside \<open>\w\<close>.
  A shorter group would be followed by a hex digit, where there is no boundary.
\<close>

definition hex_pattern :: "string \<Rightarrow> (string \<times> string) option" where
  "hex_pattern s =
     do {
       s1 \<leftarrow> lit ''#'' s;
       h \<leftarrow> Some (take 6 (takeWhile is_hex s1));
       rest \<leftarrow> Some (drop (length h) s1);
       if length h < 3 \<or> (rest \<noteq> [] \<and> re_word (hd rest)) then None else Some (h, rest)
     }"

text \<open>
  \<open>RGB_PATTERN = rgba?\s*\(\s*\d+\s*,\s*\d+\s*,\s*\d+[^)]*\)\<close>: after the three
  channels everything up to the first closing parenthesis, which has to exist. The
  pattern has no group, so \<open>findall\<close> lists the whole match.
\<close>

definition rgb_pattern :: "string \<Rightarrow> (string \<times> string) option" where
  "rgb_pattern s =
     do {
       (m, s8) \<leftarrow> rgb_channels s;
       rest \<leftarrow> lit '')'' (dropWhile (\<lambda>c. c \<noteq> CHR '')'') s8);
       Some (take (length s - length rest) s, rest)
     }"

text \<open>
  \<open>CSS_VAR_PATTERN = --[\w-]+:\s*([#\w(),.%\s]+);\<close>. The class of the group
  contains the white space, so the longest run of its characters after the colon is
  split between \<open>\s*\<close> and the group: \<open>\s*\<close> takes the leading white space, and
  gives its last character back when nothing else is left for the group. A semicolon
  has to follow the run.
\<close>

definition var_name_char :: "char \<Rightarrow> bool" where
  "var_name_char c = (re_word c \<or> c = CHR ''-'')"

definition var_value_char :: "char \<Rightarrow> bool" where
  "var_value_char c = (c \<in> set ''#(),.%'' \<or> re_word c \<or> py_isspace c)"

definition css_var_pattern :: "string \<Rightarrow> (string \<times> string) option" where
  "css_var_pattern s =
     do {
       s1 \<leftarrow> lit ''--'' s;
       s2 \<leftarrow> (if takeWhile var_name_char s1 = [] then None
              else lit '':'' (dropWhile var_name_char s1));
       run \<leftarrow> Some (takeWhile var_value_char s2);
       rest \<leftarrow> (if run = [] then None else lit '';'' (dropWhile var_value_char s2));
       Some (if dropWhile py_isspace run = [] then [last run] else dropWhile py_isspace run,
             rest)
     }"

text \<open>\<open>if normalized: colors.append(normalized)\<close> over a list of candidates.\<close>

definition normalized_of :: "string list \<Rightarrow> string list" where
  "normalized_of cands =
     concat (map (\<lambda>m. case normalize_color m of
                         Some n \<Rightarrow> if n \<noteq> [] then [n] else []
                       | None \<Rightarrow> []) cands)"

definition extract_colors :: "string \<Rightarrow> string list" where
  "extract_colors css =
     normalized_of (map (\<lambda>m. ''#'' @ m) (findall hex_pattern css))
     @ normalized_of (findall rgb_pattern css)
     @ normalized_of (map py_strip (findall css_var_pattern css))"

subsection \<open>Semantic variables\<close>

text \<open>
  A literal under \<open>re.I\<close>; the literals of the patterns are lower-case ASCII, which
  below 256 match themselves and their ASCII capitals only.
\<close>

definition lit_ci :: "string \<Rightarrow> string \<Rightarrow> string option" where
  "lit_ci p s =
     (if py_lower (take (length p) s) = p \<and> length p \<le> length s
      then Some (drop (length p) s) else None)"

text \<open>
  The end \<open>[^:]*:\s*(#[0-9a-fA-F]{3,6})\<close> of the three semantic patterns: up to the
  first colon, white space, then \<open>#\<close> and three to six hex digits, as many as there
  are. The result is the last group.
\<close>

definition sem_tail :: "string \<Rightarrow> string option" where
  "sem_tail s =
     do {
       s1 \<leftarrow> lit '':'' (dropWhile (\<lambda>c. c \<noteq> CHR '':'') s);
       s2 \<leftarrow> lit ''#'' (dropWhile py_isspace s1);
       h \<leftarrow> Some (take 6 (takeWhile is_hex s2));
       if length h < 3 then None else Some (''#'' @ h)
     }"

text \<open>An alternation \<open>(k1|k2|...)\<close>: the first alternative with which the rest matches.\<close>

fun sem_keyword :: "string list \<Rightarrow> string \<Rightarrow> string option" where
  "sem_keyword [] s = None"
| "sem_keyword (kw # kws) s =
     (case lit_ci kw s \<bind> sem_tail of Some h \<Rightarrow> Some h | None \<Rightarrow> sem_keyword kws s)"

text \<open>
  \<open>--(color-)?(k1|k2|...)[^:]*:\s*(#[0-9a-fA-F]{3,6})\<close> at the start of the input:
  with \<open>color-\<close> first, without it when that fails.
\<close>

definition sem_pattern :: "string list \<Rightarrow> string \<Rightarrow> string option" where
  "sem_pattern kws s =
     do {
       s1 \<leftarrow> lit ''--'' s;
       (case lit_ci ''color-'' s1 \<bind> sem_keyword kws of
          Some h \<Rightarrow> Some h
        | None \<Rightarrow> sem_keyword kws s1)
     }"

text \<open>\<open>pattern.search(css)\<close> followed by \<open>match.group(match.lastindex)\<close>.\<close>

fun sem_search :: "string list \<Rightarrow> string \<Rightarrow> string option" where
  "sem_search kws [] = sem_pattern kws []"
| "sem_search kws (c # cs) =
     (case sem_pattern kws (c # cs) of Some h \<Rightarrow> Some h | None \<Rightarrow> sem_search kws cs)"

text \<open>\<open>SEMANTIC_VAR_PATTERNS\<close>: each role with the alternatives of its pattern.\<close>

definition SEMANTIC_VAR_PATTERNS :: "(string \<times> string list) list" where
  "SEMANTIC_VAR_PATTERNS =
     [(''primary'', [''primary'']),
      (''accent'', [''accent'', ''secondary'', ''highlight'']),
      (''background'', [''background'', ''bg''])]"

definition semantic_step ::
  "string \<Rightarrow> (string \<rightharpoonup> string) \<Rightarrow> string \<times> string list \<Rightarrow> (string \<rightharpoonup> string)" where
  "semantic_step css result entry =
     (case sem_search (snd entry) css of
        None \<Rightarrow> result
      | Some hex_color \<Rightarrow>
          (case normalize_color hex_color of
             Some normalized \<Rightarrow>
               if normalized \<noteq> [] then result(fst entry \<mapsto> normalized) else result
           | None \<Rightarrow> result))"

definition extract_semantic_vars :: "string \<Rightarrow> (string \<rightharpoonup> string)" where
  "extract_semantic_vars css = foldl (semantic_step css) Map.empty SEMANTIC_VAR_PATTERNS"

subsection \<open>\<open>extract_from_url\<close>\<close>

text \<open>
  The HTTP request, the HTML parser and \<open>_collect_css\<close> are outside the model: a call
  is given what they deliver, either the message of the \<open>RequestException\<close> or the
  collected CSS together with the \<open>content\<close> attribute of the \<open>theme-color\<close> meta tag
  (\<open>None\<close> when the tag or the attribute is missing).
\<close>

record page =
  all_css :: string
  meta_content :: "string option"

definition get_meta_theme_color :: "page \<Rightarrow> string option" where
  "get_meta_theme_color pg =
     (case meta_content pg of
        Some content \<Rightarrow> if content \<noteq> [] then normalize_color content else None
      | None \<Rightarrow> None)"

text \<open>\<open>Counter(colors)\<close>: the keys in the order of their first occurrence, and the counts.\<close>

definition counter_keys :: "string list \<Rightarrow> string list" where
  "counter_keys colors = rev (remdups (rev colors))"

definition counter :: "string list \<Rightarrow> (string \<rightharpoonup> int)" where
  "counter colors c = (if c \<in> set colors then Some (int (count_list colors c)) else None)"

text \<open>The values of the dictionary that \<open>extract_from_url\<close> returns.\<close>

datatype pyval =
    PStr string
  | PBool bool
  | PList "string list"
  | PCounts "string \<rightharpoonup> int"

text \<open>Lines 79 to 90: the classification and the semantic override.\<close>

definition classify_with_semantic ::
  "string list \<Rightarrow> (string \<rightharpoonup> int) \<Rightarrow> (string \<rightharpoonup> string) \<Rightarrow> py_error + palette" where
  "classify_with_semantic unique_colors color_counts semantic_colors =
     (case classify_colors unique_colors color_counts of
        Inl e \<Rightarrow> Inl e
      | Inr classified \<Rightarrow> Inr (apply_semantic semantic_colors classified))"

definition extract_from_url :: "string + page \<Rightarrow> py_error + (string \<rightharpoonup> pyval)" where
  "extract_from_url fetched =
     (case fetched of
        Inl e \<Rightarrow> Inr [''error'' \<mapsto> PStr e, ''colors'' \<mapsto> PList [], ''theme'' \<mapsto> PStr ''light'']
      | Inr pg \<Rightarrow>
          (let semantic_colors = extract_semantic_vars (all_css pg);
               colors0 = extract_colors (all_css pg);
               colors = (case get_meta_theme_color pg of
                           Some theme_color \<Rightarrow>
                             if theme_color \<noteq> [] then colors0 @ [theme_color] else colors0
                         | None \<Rightarrow> colors0);
               color_counts = counter colors;
               unique_colors = counter_keys colors
           in (case classify_with_semantic unique_colors color_counts semantic_colors of
                 Inl e \<Rightarrow> Inl e
               | Inr classified \<Rightarrow>
                   Inr [''colors'' \<mapsto> PList unique_colors,
                        ''color_counts'' \<mapsto> PCounts color_counts,
                        ''semantic_vars_found'' \<mapsto> PBool (semantic_colors \<noteq> Map.empty),
                        ''primary'' \<mapsto> PStr (primary classified),
                        ''accent'' \<mapsto> PStr (accent classified),
                        ''background'' \<mapsto> PStr (background classified),
                        ''text'' \<mapsto> PStr (text_color classified),
                        ''theme'' \<mapsto> PStr (theme classified)])))"

section \<open>\<open>brand_kit_gen.py\<close>: the colours of \<open>extract_brand_identity\<close>\<close>

text \<open>
  The command line overrides \<open>--primary\<close>, \<open>--accent\<close> and \<open>--background\<close> are
  \<open>None\<close> unless given.
\<close>

record cli_args =
  arg_primary :: "string option"
  arg_accent :: "string option"
  arg_background :: "string option"

text \<open>
  The colour fields of the \<open>BrandIdentity\<close> that \<open>extract_brand_identity\<close> builds,
  each under its name with \<open>brand_\<close> in front; the name, the domain, the font and the
  tagline come from \<open>BrandExtractor\<close> and are left out.
\<close>

record brand_identity =
  brand_colors :: pyval
  brand_primary_color :: pyval
  brand_accent_color :: pyval
  brand_background_color :: pyval
  brand_text_color :: pyval
  brand_theme :: pyval

text \<open>\<open>d.get(k, default)\<close>.\<close>

definition dict_get :: "(string \<rightharpoonup> pyval) \<Rightarrow> string \<Rightarrow> pyval \<Rightarrow> pyval" where
  "dict_get d k dflt = (case d k of Some v \<Rightarrow> v | None \<Rightarrow> dflt)"

text \<open>\<open>arg or other\<close> for an optional string \<open>arg\<close>.\<close>

definition arg_or :: "string option \<Rightarrow> pyval \<Rightarrow> pyval" where
  "arg_or arg other = (case arg of Some s \<Rightarrow> if s \<noteq> [] then PStr s else other | None \<Rightarrow> other)"

definition extract_brand_identity :: "cli_args \<Rightarrow> (string \<rightharpoonup> pyval) \<Rightarrow> brand_identity" where
  "extract_brand_identity args color_data =
     \<lparr>brand_colors = dict_get color_data ''colors'' (PList []),
      brand_primary_color = arg_or (arg_primary args) (dict_get color_data ''primary'' (PStr ''#333333'')),
      brand_accent_color = arg_or (arg_accent args) (dict_get color_data ''accent'' (PStr ''#666666'')),
      brand_background_color =
        arg_or (arg_background args) (dict_get color_data ''background'' (PStr ''#ffffff'')),
      brand_text_color = dict_get color_data ''text'' (PStr ''#ffffff''),
      brand_theme = dict_get color_data ''theme'' (PStr ''light'')\<rparr>"

section \<open>Notions used to state the properties\<close>

text \<open>
  \<open>first_highest cnt P colors x\<close>: \<open>x\<close> stands in the corpus at a place where it
  satisfies \<open>P\<close>, every colour before it that satisfies \<open>P\<close> has a strictly lower
  count, and no colour after it that satisfies \<open>P\<close> has a higher count. So \<open>x\<close> is the
  colour with the highest count among those that satisfy \<open>P\<close>, the first seen of them
  when several share that count.
\<close>

definition first_highest ::
  "(string \<Rightarrow> int) \<Rightarrow> (string \<Rightarrow> bool) \<Rightarrow> string list \<Rightarrow> string \<Rightarrow> bool" where
  "first_highest cnt P colors x =
     (\<exists>pre post. colors = pre @ x # post \<and> P x
        \<and> (\<forall>y\<in>set pre. P y \<longrightarrow> cnt y < cnt x)
        \<and> (\<forall>y\<in>set post. P y \<longrightarrow> cnt y \<le> cnt x))"

text \<open>
  \<open>sem_occurrence kws css pre h\<close>: after the prefix \<open>pre\<close> the text \<open>css\<close> goes on
  with \<open>--\<close>, then \<open>color-\<close> or nothing, then one of the keywords \<open>kws\<close> (both in
  any mix of cases), then characters other than a colon, a colon, white space, \<open>#\<close> and
  the hex digits \<open>h\<close>: at least three, at most six, and as many as stand there up to
  six.
\<close>

definition sem_occurrence :: "string list \<Rightarrow> string \<Rightarrow> string \<Rightarrow> string \<Rightarrow> bool" where
  "sem_occurrence kws css pre h =
     (\<exists>c kw mid ws tail.
        css = pre @ ''--'' @ c @ kw @ mid @ '':'' @ ws @ ''#'' @ h @ tail
      \<and> (c = [] \<or> py_lower c = ''color-'')
      \<and> py_lower kw \<in> set kws
      \<and> CHR '':'' \<notin> set mid
      \<and> list_all py_isspace ws
      \<and> list_all is_hex h \<and> 3 \<le> length h \<and> length h \<le> 6
      \<and> (length h = 6 \<or> tail = [] \<or> \<not> is_hex (hd tail)))"

text \<open>
  \<open>canonical_hex v\<close>: \<open>v\<close> is \<open>#\<close> followed by exactly six lower-case hex digits.
\<close>

definition canonical_hex :: "string \<Rightarrow> bool" where
  "canonical_hex v =
     (length v = 7 \<and> hd v = CHR ''#'' \<and> list_all (\<lambda>c. c \<in> set ''0123456789abcdef'') (tl v))"

section \<open>Properties of the classifier\<close>

subsection \<open>The selection scans\<close>

text \<open>
  What \<open>max(xs, key=f)\<close> returns splits the list: every element before it has a
  strictly smaller key, every element after it a key that is not larger. For
  \<open>min\<close> the same holds with the order reversed.
\<close>

lemma fold_max_split:
  fixes f :: "'a \<Rightarrow> 'k::linorder"
  assumes "ys = pre @ m # post" "\<forall>y\<in>set pre. f y < f m" "\<forall>y\<in>set post. f y \<le> f m"
  shows "\<exists>pre' post'. ys @ xs = pre' @ fold (\<lambda>y m. if f y > f m then y else m) xs m # post'
           \<and> (\<forall>y\<in>set pre'. f y < f (fold (\<lambda>y m. if f y > f m then y else m) xs m))
           \<and> (\<forall>y\<in>set post'. f y \<le> f (fold (\<lambda>y m. if f y > f m then y else m) xs m))"
  using assms
proof (induction xs arbitrary: ys pre m post)
  case Nil
  then show ?case by auto
next
  case (Cons a xs)
  show ?case
  proof (cases "f a > f m")
    case True
    have "ys @ [a] = (pre @ m # post) @ a # []" using Cons.prems(1) by simp
    moreover have "\<forall>y\<in>set (pre @ m # post). f y < f a"
      using Cons.prems(2,3) True by (auto intro: less_trans le_less_trans)
    ultimately show ?thesis
      using Cons.IH[of "ys @ [a]" "pre @ m # post" a "[]"] True by simp
  next
    case False
    have "ys @ [a] = pre @ m # (post @ [a])" using Cons.prems(1) by simp
    moreover have "\<forall>y\<in>set (post @ [a]). f y \<le> f m"
      using Cons.prems(3) False by auto
    ultimately show ?thesis
      using Cons.IH[of "ys @ [a]" pre m "post @ [a]"] Cons.prems(2) False by simp
  qed
qed

lemma py_max_key_split:
  fixes f :: "'a \<Rightarrow> 'k::linorder"
  assumes "xs \<noteq> []"
  shows "\<exists>x pre post. py_max_key f xs = Inr x \<and> xs = pre @ x # post
           \<and> (\<forall>y\<in>set pre. f y < f x) \<and> (\<forall>y\<in>set post. f y \<le> f x)"
proof -
  obtain a as where xs: "xs = a # as" using assms by (cases xs) auto
  from fold_max_split[of "[a]" "[]" a "[]" f as]
  show ?thesis unfolding xs by auto
qed

lemma fold_min_split:
  fixes f :: "'a \<Rightarrow> 'k::linorder"
  assumes "ys = pre @ m # post" "\<forall>y\<in>set pre. f m < f y" "\<forall>y\<in>set post. f m \<le> f y"
  shows "\<exists>pre' post'. ys @ xs = pre' @ fold (\<lambda>y m. if f y < f m then y else m) xs m # post'
           \<and> (\<forall>y\<in>set pre'. f (fold (\<lambda>y m. if f y < f m then y else m) xs m) < f y)
           \<and> (\<forall>y\<in>set post'. f (fold (\<lambda>y m. if f y < f m then y else m) xs m) \<le> f y)"
  using assms
proof (induction xs arbitrary: ys pre m post)
  case Nil
  then show ?case by auto
next
  case (Cons a xs)
  show ?case
  proof (cases "f a < f m")
    case True
    have "ys @ [a] = (pre @ m # post) @ a # []" using Cons.prems(1) by simp
    moreover have "\<forall>y\<in>set (pre @ m # post). f a < f y"
      using Cons.prems(2,3) True by (auto intro: less_trans less_le_trans)
    ultimately show ?thesis
      using Cons.IH[of "ys @ [a]" "pre @ m # post" a "[]"] True by simp
  next
    case False
    have "ys @ [a] = pre @ m # (post @ [a])" using Cons.prems(1) by simp
    moreover have "\<forall>y\<in>set (post @ [a]). f m \<le> f y"
      using Cons.prems(3) False by auto
    ultimately show ?thesis
      using Cons.IH[of "ys @ [a]" pre m "post @ [a]"] Cons.prems(2) False by simp
  qed
qed

lemma py_min_key_split:
  fixes f :: "'a \<Rightarrow> 'k::linorder"
  assumes "xs \<noteq> []"
  shows "\<exists>x pre post. py_min_key f xs = Inr x \<and> xs = pre @ x # post
           \<and> (\<forall>y\<in>set pre. f x < f y) \<and> (\<forall>y\<in>set post. f x \<le> f y)"
proof -
  obtain a as where xs: "xs = a # as" using assms by (cases xs) auto
  from fold_min_split[of "[a]" "[]" a "[]" f as]
  show ?thesis unfolding xs by auto
qed

lemma choose_background_returns:
  assumes "colors \<noteq> []"
  shows "\<exists>bg. choose_background colors counts = Inr bg"
proof -
  have s: "sort_key luminance colors \<noteq> []" using assms by (metis length_sort length_0_conv)
  show ?thesis
    unfolding choose_background_def Let_def
    using py_min_key_split[of "dark_colors colors" luminance]
          py_max_key_split[of "light_colors colors" luminance] s
    by (auto simp: item_first_def item_last_def split: list.splits)
qed

lemma choose_primary_returns: "\<exists>p. choose_primary colors counts bg = Inr p"
  unfolding choose_primary_def Let_def
  using py_max_key_split[of "chromatic_colors colors bg" "count_of counts"]
        py_max_key_split[of "filter (\<lambda>c. c \<noteq> bg) colors" "count_of counts"]
  by auto

lemma choose_accent_returns: "\<exists>a. choose_accent colors bg prim = Inr a"
  unfolding choose_accent_def Let_def
  using py_max_key_split[of "filter (\<lambda>c. c \<noteq> prim \<and> color_distance c prim > 30) (chromatic_colors colors bg)" saturation]
  by auto

lemma classify_colors_returns:
  "\<exists>bg prim acc. classify_colors colors counts =
      Inr \<lparr>primary = prim, accent = acc, background = bg,
           text_color = (if colors \<noteq> [] \<and> theme_is_dark colors counts then ''#ffffff'' else ''#000000''),
           theme = (if colors \<noteq> [] \<and> theme_is_dark colors counts then ''dark'' else ''light'')\<rparr>
      \<and> (colors \<noteq> [] \<longrightarrow> choose_background colors counts = Inr bg
            \<and> choose_primary colors counts bg = Inr prim
            \<and> choose_accent colors bg prim = Inr acc)"
proof (cases "colors = []")
  case True
  then show ?thesis by (simp add: classify_colors_def default_palette_def)
next
  case False
  obtain bg where bg: "choose_background colors counts = Inr bg"
    using choose_background_returns[OF False] by blast
  obtain prim where prim: "choose_primary colors counts bg = Inr prim"
    using choose_primary_returns by blast
  obtain acc where acc: "choose_accent colors bg prim = Inr acc"
    using choose_accent_returns by blast
  show ?thesis using False bg prim acc by (simp add: classify_colors_def)
qed

text \<open>
  C7. For a corpus with no colours the classifier returns the fixed default palette
  \<open>primary #333333\<close>, \<open>accent #666666\<close>, \<open>background #ffffff\<close>, \<open>text #000000\<close>,
  \<open>theme light\<close>, whatever the counts are; with no semantic hint the override step
  leaves it as it is, so no later step changes the result.
\<close>

theorem classify_empty_corpus:
  "classify_colors [] counts =
     Inr \<lparr>primary = ''#333333'', accent = ''#666666'', background = ''#ffffff'',
          text_color = ''#000000'', theme = ''light''\<rparr>
   \<and> classify_with_semantic [] counts Map.empty =
     Inr \<lparr>primary = ''#333333'', accent = ''#666666'', background = ''#ffffff'',
          text_color = ''#000000'', theme = ''light''\<rparr>"
  by (simp add: classify_colors_def classify_with_semantic_def apply_semantic_def
      default_palette_def)

text \<open>
  C9. The classifier is total: for every list of colours and every counts mapping the
  call returns a palette and raises nothing (no \<open>min\<close> or \<open>max\<close> of an empty list, no
  index out of range); the palette has the four colour roles, its theme tag is
  \<open>dark\<close> or \<open>light\<close> and its text colour is white or black.
\<close>

theorem classify_colors_total:
  "\<exists>p. classify_colors colors counts = Inr p
       \<and> theme p \<in> {''dark'', ''light''} \<and> text_color p \<in> {''#ffffff'', ''#000000''}"
  using classify_colors_returns[of colors counts] by auto

subsection \<open>Evaluation at concrete colours\<close>

text \<open>
  The colours whose channels are 0 or 255 have rational luminances, because
  \<open>gamma 0 = 0\<close> and \<open>gamma 1 = 1\<close>; a distance is compared with a threshold through
  its square.
\<close>

lemma rgb_red: "hex_to_rgb ''#ff0000'' = (255, 0, 0)" by code_simp
lemma rgb_green: "hex_to_rgb ''#00ff00'' = (0, 255, 0)" by code_simp
lemma rgb_white: "hex_to_rgb ''#ffffff'' = (255, 255, 255)" by code_simp
lemma rgb_black: "hex_to_rgb ''#000000'' = (0, 0, 0)" by code_simp
lemma rgb_minus: "hex_to_rgb ''#-f0000'' = (- 15, 0, 0)" by code_simp

lemma lum_red: "luminance ''#ff0000'' = 0.2126"
  by (simp add: luminance_def rgb_red gamma_def)
lemma lum_green: "luminance ''#00ff00'' = 0.7152"
  by (simp add: luminance_def rgb_green gamma_def)
lemma lum_white: "luminance ''#ffffff'' = 1"
  by (simp add: luminance_def rgb_white gamma_def)
lemma lum_black: "luminance ''#000000'' = 0"
  by (simp add: luminance_def rgb_black gamma_def)

lemma sqrt_gt_50: "0 \<le> x \<Longrightarrow> (50 < sqrt x) = (2500 < x)"
  using real_sqrt_less_iff[of 2500 x] by simp
lemma sqrt_gt_30: "0 \<le> x \<Longrightarrow> (30 < sqrt x) = (900 < x)"
  using real_sqrt_less_iff[of 900 x] by simp

lemmas classify_defs =
  classify_colors_def choose_background_def choose_primary_def choose_accent_def
  theme_is_dark_def dark_colors_def light_colors_def item_first_def item_last_def
  chromatic_colors_def chromatic_def is_grayscale_def color_distance_def saturation_def
  count_of_def sqrt_gt_50 sqrt_gt_30

lemmas color_evals = rgb_red rgb_green rgb_white rgb_black lum_red lum_green lum_white lum_black

text \<open>
  Between its two branches \<open>gamma\<close> is bounded by a cube and a square, which is enough
  to place the luminances of the scenario of the specification: \<open>#1a1a2e\<close> is very
  dark, \<open>#e94560\<close> is neither very dark nor very light. The classifier then returns
  what the specification lists for that corpus.
\<close>

lemma gamma_bounds:
  assumes "0.03928 < c" "c \<le> 1"
  shows "((c + 0.055) / 1.055) ^ 3 \<le> gamma c \<and> gamma c \<le> ((c + 0.055) / 1.055)\<^sup>2"
proof -
  let ?y = "(c + 0.055) / 1.055"
  have y0: "0 < ?y" using assms by simp
  have y1: "?y \<le> 1" using assms by simp
  have g: "gamma c = ?y powr 2.4" using assms by (simp add: gamma_def)
  have "?y powr 3 \<le> ?y powr 2.4" using y0 y1 by (intro powr_mono') simp_all
  moreover have "?y powr 2.4 \<le> ?y powr 2" using y0 y1 by (intro powr_mono') simp_all
  moreover have "?y powr 3 = ?y ^ 3" using y0 powr_numeral[of ?y "num.Bit1 num.One"] by simp
  moreover have "?y powr 2 = ?y\<^sup>2" using y0 powr_numeral[of ?y "num.Bit0 num.One"] by simp
  ultimately show ?thesis unfolding g by simp
qed

lemma rgb_navy: "hex_to_rgb ''#1a1a2e'' = (26, 26, 46)" by code_simp
lemma rgb_rose: "hex_to_rgb ''#e94560'' = (233, 69, 96)" by code_simp

lemma lum_navy: "luminance ''#1a1a2e'' < 0.1"
proof -
  have a: "gamma (26 / 255) \<le> ((26 / 255 + 0.055) / 1.055)\<^sup>2"
    using gamma_bounds[of "26 / 255"] by simp
  have b: "gamma (46 / 255) \<le> ((46 / 255 + 0.055) / 1.055)\<^sup>2"
    using gamma_bounds[of "46 / 255"] by simp
  have "luminance ''#1a1a2e''
          = 0.2126 * gamma (26 / 255) + 0.7152 * gamma (26 / 255) + 0.0722 * gamma (46 / 255)"
    by (simp add: luminance_def rgb_navy)
  also have "\<dots> \<le> 0.2126 * ((26 / 255 + 0.055) / 1.055)\<^sup>2
                    + 0.7152 * ((26 / 255 + 0.055) / 1.055)\<^sup>2
                    + 0.0722 * ((46 / 255 + 0.055) / 1.055)\<^sup>2"
    using a b by (intro add_mono mult_left_mono) simp_all
  also have "\<dots> < 0.1" by (simp add: power2_eq_square)
  finally show ?thesis .
qed

lemma lum_rose: "0.1 < luminance ''#e94560'' \<and> luminance ''#e94560'' < 0.9"
proof -
  have r: "((233 / 255 + 0.055) / 1.055) ^ 3 \<le> gamma (233 / 255)"
          "gamma (233 / 255) \<le> ((233 / 255 + 0.055) / 1.055)\<^sup>2"
    using gamma_bounds[of "233 / 255"] by simp_all
  have g: "((69 / 255 + 0.055) / 1.055) ^ 3 \<le> gamma (69 / 255)"
          "gamma (69 / 255) \<le> ((69 / 255 + 0.055) / 1.055)\<^sup>2"
    using gamma_bounds[of "69 / 255"] by simp_all
  have b: "((96 / 255 + 0.055) / 1.055) ^ 3 \<le> gamma (96 / 255)"
          "gamma (96 / 255) \<le> ((96 / 255 + 0.055) / 1.055)\<^sup>2"
    using gamma_bounds[of "96 / 255"] by simp_all
  have l: "luminance ''#e94560''
          = 0.2126 * gamma (233 / 255) + 0.7152 * gamma (69 / 255) + 0.0722 * gamma (96 / 255)"
    by (simp add: luminance_def rgb_rose)
  have "0.2126 * ((233 / 255 + 0.055) / 1.055) ^ 3
          + 0.7152 * ((69 / 255 + 0.055) / 1.055) ^ 3
          + 0.0722 * ((96 / 255 + 0.055) / 1.055) ^ 3 \<le> luminance ''#e94560''"
    unfolding l using r(1) g(1) b(1) by (intro add_mono mult_left_mono) simp_all
  moreover have "(0.1::real) < 0.2126 * ((233 / 255 + 0.055) / 1.055) ^ 3
          + 0.7152 * ((69 / 255 + 0.055) / 1.055) ^ 3
          + 0.0722 * ((96 / 255 + 0.055) / 1.055) ^ 3"
    by (simp add: power3_eq_cube)
  moreover have "luminance ''#e94560'' \<le> 0.2126 * ((233 / 255 + 0.055) / 1.055)\<^sup>2
          + 0.7152 * ((69 / 255 + 0.055) / 1.055)\<^sup>2
          + 0.0722 * ((96 / 255 + 0.055) / 1.055)\<^sup>2"
    unfolding l using r(2) g(2) b(2) by (intro add_mono mult_left_mono) simp_all
  moreover have "0.2126 * ((233 / 255 + 0.055) / 1.055)\<^sup>2
          + 0.7152 * ((69 / 255 + 0.055) / 1.055)\<^sup>2
          + 0.0722 * ((96 / 255 + 0.055) / 1.055)\<^sup>2 < (0.9::real)"
    by (simp add: power2_eq_square)
  ultimately show ?thesis by linarith
qed

lemma scenario_of_the_spec:
  "classify_colors [''#1a1a2e'', ''#e94560'', ''#ffffff'']
       [''#1a1a2e'' \<mapsto> 5, ''#e94560'' \<mapsto> 3, ''#ffffff'' \<mapsto> 10]
     = Inr \<lparr>primary = ''#1a1a2e'', accent = ''#e94560'', background = ''#ffffff'',
            text_color = ''#000000'', theme = ''light''\<rparr>"
proof -
  have n1: "luminance ''#1a1a2e'' * 10 < 1" "\<not> 9 < luminance ''#1a1a2e'' * 10"
    using lum_navy by simp_all
  have n2: "\<not> luminance ''#e94560'' * 10 < 1" "\<not> 9 < luminance ''#e94560'' * 10"
    using lum_rose by simp_all
  show ?thesis
    by (simp add: classify_defs rgb_navy rgb_rose rgb_white lum_white n1 n2)
qed

subsection \<open>Background\<close>

text \<open>
  The three branches of the background selection. With a dark theme and very dark
  colours the background is a very dark colour of minimal luminance; otherwise, with
  very light colours, it is a very light colour of maximal luminance; and when both sets
  are empty the theme is light and the background is a colour of minimal luminance in the
  whole corpus.
\<close>

lemma background_dark_branch:
  assumes "theme_is_dark colors counts" "dark_colors colors \<noteq> []"
  shows "\<exists>bg. choose_background colors counts = Inr bg \<and> bg \<in> set (dark_colors colors)
           \<and> (\<forall>c\<in>set (dark_colors colors). luminance bg \<le> luminance c)"
proof -
  obtain x pre post where m: "py_min_key luminance (dark_colors colors) = Inr x"
    and sp: "dark_colors colors = pre @ x # post"
    and lt: "\<forall>y\<in>set pre. luminance x < luminance y"
    and le: "\<forall>y\<in>set post. luminance x \<le> luminance y"
    using py_min_key_split[OF assms(2), of luminance] by blast
  have "choose_background colors counts = Inr x"
    using assms m by (simp add: choose_background_def)
  moreover have "x \<in> set (dark_colors colors)" unfolding sp by simp
  moreover have "\<forall>c\<in>set (dark_colors colors). luminance x \<le> luminance c"
    unfolding sp using lt le by auto
  ultimately show ?thesis by blast
qed

lemma background_light_branch:
  assumes "\<not> (theme_is_dark colors counts \<and> dark_colors colors \<noteq> [])"
    and "light_colors colors \<noteq> []"
  shows "\<exists>bg. choose_background colors counts = Inr bg \<and> bg \<in> set (light_colors colors)
           \<and> (\<forall>c\<in>set (light_colors colors). luminance c \<le> luminance bg)"
proof -
  obtain x pre post where m: "py_max_key luminance (light_colors colors) = Inr x"
    and sp: "light_colors colors = pre @ x # post"
    and lt: "\<forall>y\<in>set pre. luminance y < luminance x"
    and le: "\<forall>y\<in>set post. luminance y \<le> luminance x"
    using py_max_key_split[OF assms(2), of luminance] by blast
  have "choose_background colors counts = Inr x"
    using assms m by (auto simp: choose_background_def)
  moreover have "x \<in> set (light_colors colors)" unfolding sp by simp
  moreover have "\<forall>c\<in>set (light_colors colors). luminance c \<le> luminance x"
    unfolding sp using lt le by auto
  ultimately show ?thesis by blast
qed

lemma background_fallback_branch:
  assumes "colors \<noteq> []" "dark_colors colors = []" "light_colors colors = []"
  shows "\<not> theme_is_dark colors counts
       \<and> (\<exists>bg. choose_background colors counts = Inr bg \<and> bg \<in> set colors
             \<and> (\<forall>c\<in>set colors. luminance bg \<le> luminance c))"
proof -
  have nd: "\<not> theme_is_dark colors counts"
    using assms(2,3) by (simp add: theme_is_dark_def)
  let ?s = "sort_key luminance colors"
  have ne: "?s \<noteq> []" using assms(1) by (metis length_sort length_0_conv)
  then obtain y ys where s: "?s = y # ys" by (cases ?s) auto
  have "sorted (map luminance ?s)" by (rule sorted_sort_key)
  then have le: "\<forall>z\<in>set ys. luminance y \<le> luminance z" unfolding s by simp
  have st: "set colors = set (y # ys)" using s by (metis set_sort)
  have "choose_background colors counts = Inr y"
    using nd assms(2,3) s by (simp add: choose_background_def item_first_def)
  moreover have "y \<in> set colors" unfolding st by simp
  moreover have "\<forall>c\<in>set colors. luminance y \<le> luminance c" unfolding st using le by simp
  ultimately show ?thesis using nd by blast
qed

text \<open>
  C1. The claim asks, when no colour is very dark and none is very light, for the
  globally lightest colour under a light theme. In that branch the source reads
  \<open>sorted_by_lum[-1] if is_dark_theme else sorted_by_lum[0]\<close>. For the corpus of pure
  red (luminance 0.2126) and pure green (luminance 0.7152) both extreme sets are empty,
  the theme is light, and the background is red, the darkest colour, not green.
\<close>

theorem background_fallback_example:
  "dark_colors [''#ff0000'', ''#00ff00''] = []
   \<and> light_colors [''#ff0000'', ''#00ff00''] = []
   \<and> luminance ''#ff0000'' < luminance ''#00ff00''
   \<and> classify_colors [''#ff0000'', ''#00ff00''] [''#ff0000'' \<mapsto> 1, ''#00ff00'' \<mapsto> 1]
       = Inr \<lparr>primary = ''#00ff00'', accent = ''#00ff00'', background = ''#ff0000'',
              text_color = ''#000000'', theme = ''light''\<rparr>"
  by (simp add: classify_defs color_evals)

subsection \<open>Primary\<close>

lemma filter_eq_appendD:
  "filter P xs = ys @ zs \<Longrightarrow> \<exists>us vs. xs = us @ vs \<and> filter P us = ys \<and> filter P vs = zs"
proof (induction ys arbitrary: xs)
  case Nil
  then have "xs = [] @ xs \<and> filter P [] = [] \<and> filter P xs = zs" by simp
  then show ?case by blast
next
  case (Cons y ys)
  from Cons.prems obtain ws rest where xs: "xs = ws @ y # rest" and ws: "\<forall>u\<in>set ws. \<not> P u"
    and py: "P y" and rest: "ys @ zs = filter P rest"
    by (auto simp: filter_eq_Cons_iff)
  from Cons.IH[of rest] rest obtain us vs where r: "rest = us @ vs" and u: "filter P us = ys"
    and v: "filter P vs = zs" by metis
  have "xs = (ws @ y # us) @ vs" using xs r by simp
  moreover have "filter P (ws @ y # us) = y # ys" using ws py u by simp
  ultimately show ?case using v by blast
qed

lemma py_max_key_filter:
  assumes "filter P colors \<noteq> []"
  shows "\<exists>x. py_max_key cnt (filter P colors) = Inr x \<and> first_highest cnt P colors x"
proof -
  obtain x pre post where m: "py_max_key cnt (filter P colors) = Inr x"
    and sp: "filter P colors = pre @ x # post"
    and lt: "\<forall>y\<in>set pre. cnt y < cnt x" and le: "\<forall>y\<in>set post. cnt y \<le> cnt x"
    using py_max_key_split[OF assms, of cnt] by blast
  from sp obtain us vs where c: "colors = us @ vs" and us: "filter P us = pre"
    and vs: "filter P vs = x # post"
    using filter_eq_appendD[of P colors pre "x # post"] by blast
  from vs obtain ws zs where v: "vs = ws @ x # zs" and ws: "\<forall>u\<in>set ws. \<not> P u" and px: "P x"
    and zs: "post = filter P zs"
    by (auto simp: filter_eq_Cons_iff)
  have "colors = (us @ ws) @ x # zs" using c v by simp
  moreover have "\<forall>y\<in>set (us @ ws). P y \<longrightarrow> cnt y < cnt x"
    using lt us ws by auto
  moreover have "\<forall>y\<in>set zs. P y \<longrightarrow> cnt y \<le> cnt x"
    using le zs by auto
  ultimately have "first_highest cnt P colors x"
    unfolding first_highest_def using px by blast
  with m show ?thesis by blast
qed

text \<open>
  C8. For every non-empty corpus the classifier returns a palette whose primary is, when
  some colour is chromatic (not grey within tolerance 10 and farther than 50 from the
  chosen background), the chromatic colour with the highest count, the first seen of
  those with that count; when no colour is chromatic but some colour differs from the
  background, the colour different from the background with the highest count, again the
  first seen; and \<open>#333333\<close> when every colour equals the background.
\<close>

theorem primary_selection:
  assumes "colors \<noteq> []"
  shows "\<exists>p. classify_colors colors counts = Inr p \<and>
           (if \<exists>c\<in>set colors. chromatic (background p) c
              then first_highest (count_of counts) (chromatic (background p)) colors (primary p)
            else if \<exists>c\<in>set colors. c \<noteq> background p
              then first_highest (count_of counts) (\<lambda>c. c \<noteq> background p) colors (primary p)
            else primary p = ''#333333'')"
proof -
  obtain bg prim acc tx th where
    r: "classify_colors colors counts =
          Inr \<lparr>primary = prim, accent = acc, background = bg, text_color = tx, theme = th\<rparr>"
    and pr: "choose_primary colors counts bg = Inr prim"
    using classify_colors_returns[of colors counts] assms by blast
  let ?p = "\<lparr>primary = prim, accent = acc, background = bg, text_color = tx, theme = th\<rparr>"
  have e1: "(\<exists>c\<in>set colors. chromatic bg c) = (chromatic_colors colors bg \<noteq> [])"
    by (auto simp: chromatic_colors_def filter_empty_conv)
  have e2: "(\<exists>c\<in>set colors. c \<noteq> bg) = (filter (\<lambda>c. c \<noteq> bg) colors \<noteq> [])"
    by (auto simp: filter_empty_conv)
  have "if \<exists>c\<in>set colors. chromatic bg c
          then first_highest (count_of counts) (chromatic bg) colors prim
        else if \<exists>c\<in>set colors. c \<noteq> bg
          then first_highest (count_of counts) (\<lambda>c. c \<noteq> bg) colors prim
        else prim = ''#333333''"
  proof (cases "chromatic_colors colors bg \<noteq> []")
    case True
    then show ?thesis
      using py_max_key_filter[of "chromatic bg" colors "count_of counts"] pr
      unfolding e1 by (auto simp: choose_primary_def chromatic_colors_def)
  next
    case False
    show ?thesis
    proof (cases "filter (\<lambda>c. c \<noteq> bg) colors \<noteq> []")
      case True
      then show ?thesis
        using py_max_key_filter[of "\<lambda>c. c \<noteq> bg" colors "count_of counts"] pr False
        unfolding e1 e2 by (auto simp: choose_primary_def Let_def)
    next
      case F2: False
      then show ?thesis using pr False unfolding e1 e2 by (auto simp: choose_primary_def Let_def)
    qed
  qed
  then show ?thesis using r by simp
qed

lemma classify_tie:
  "classify_colors [''#ff0000'', ''#00ff00'', ''#ffffff'']
       [''#ff0000'' \<mapsto> 3, ''#00ff00'' \<mapsto> 3, ''#ffffff'' \<mapsto> 10]
     = Inr \<lparr>primary = ''#ff0000'', accent = ''#00ff00'', background = ''#ffffff'',
            text_color = ''#000000'', theme = ''light''\<rparr>"
  by (simp add: classify_defs color_evals)

theorem primary_selection_witness:
  "[''#ff0000'', ''#00ff00'', ''#ffffff''] \<noteq> []
   \<and> classify_colors [''#ff0000'', ''#00ff00'', ''#ffffff'']
       [''#ff0000'' \<mapsto> 3, ''#00ff00'' \<mapsto> 3, ''#ffffff'' \<mapsto> 10]
     = Inr \<lparr>primary = ''#ff0000'', accent = ''#00ff00'', background = ''#ffffff'',
            text_color = ''#000000'', theme = ''light''\<rparr>
   \<and> first_highest (count_of [''#ff0000'' \<mapsto> 3, ''#00ff00'' \<mapsto> 3, ''#ffffff'' \<mapsto> 10])
         (chromatic ''#ffffff'') [''#ff0000'', ''#00ff00'', ''#ffffff''] ''#ff0000''"
proof -
  have ne: "[''#ff0000'', ''#00ff00'', ''#ffffff''] \<noteq> []" by simp
  have ch: "chromatic ''#ffffff'' ''#ff0000''"
    by (simp add: classify_defs color_evals)
  show ?thesis
    using primary_selection[OF ne, of "[''#ff0000'' \<mapsto> 3, ''#00ff00'' \<mapsto> 3, ''#ffffff'' \<mapsto> 10]"] ch
    by (simp add: classify_tie)
qed

subsection \<open>Semantic override\<close>

text \<open>
  C6. For every corpus and every semantic hint the classification followed by the
  override returns a palette in which each role that the hint supplies (a value that is
  not the empty string, as every value the collector stores is) has the hint's value;
  and when the background is supplied, the theme is \<open>dark\<close> iff the luminance of the
  new background is below 0.5 and the text is \<open>#ffffff\<close> for dark and \<open>#000000\<close> for
  light, whatever the counts had decided.
\<close>

theorem semantic_override:
  "\<exists>r. classify_with_semantic colors counts semantic = Inr r
     \<and> (\<forall>v. semantic ''primary'' = Some v \<and> v \<noteq> [] \<longrightarrow> primary r = v)
     \<and> (\<forall>v. semantic ''accent'' = Some v \<and> v \<noteq> [] \<longrightarrow> accent r = v)
     \<and> (\<forall>v. semantic ''background'' = Some v \<and> v \<noteq> [] \<longrightarrow>
            background r = v
          \<and> theme r = (if luminance v < 0.5 then ''dark'' else ''light'')
          \<and> text_color r = (if luminance v < 0.5 then ''#ffffff'' else ''#000000''))"
proof -
  obtain p where p: "classify_colors colors counts = Inr p"
    using classify_colors_returns[of colors counts] by blast
  have "classify_with_semantic colors counts semantic = Inr (apply_semantic semantic p)"
    using p by (simp add: classify_with_semantic_def)
  moreover have "\<forall>v. semantic ''primary'' = Some v \<and> v \<noteq> [] \<longrightarrow> primary (apply_semantic semantic p) = v"
    by (auto simp: apply_semantic_def Let_def split: option.splits)
  moreover have "\<forall>v. semantic ''accent'' = Some v \<and> v \<noteq> [] \<longrightarrow> accent (apply_semantic semantic p) = v"
    by (auto simp: apply_semantic_def Let_def split: option.splits)
  moreover have "\<forall>v. semantic ''background'' = Some v \<and> v \<noteq> [] \<longrightarrow>
            background (apply_semantic semantic p) = v
          \<and> theme (apply_semantic semantic p) = (if luminance v < 0.5 then ''dark'' else ''light'')
          \<and> text_color (apply_semantic semantic p) = (if luminance v < 0.5 then ''#ffffff'' else ''#000000'')"
    by (auto simp: apply_semantic_def Let_def split: option.splits)
  ultimately show ?thesis by blast
qed

lemma classify_white:
  "classify_colors [''#ffffff''] [''#ffffff'' \<mapsto> 1]
     = Inr \<lparr>primary = ''#333333'', accent = ''#333333'', background = ''#ffffff'',
            text_color = ''#000000'', theme = ''light''\<rparr>"
  by (simp add: classify_defs color_evals)

theorem semantic_override_witness:
  "classify_colors [''#ffffff''] [''#ffffff'' \<mapsto> 1]
     = Inr \<lparr>primary = ''#333333'', accent = ''#333333'', background = ''#ffffff'',
            text_color = ''#000000'', theme = ''light''\<rparr>
   \<and> [''background'' \<mapsto> ''#000000''] ''background'' = Some ''#000000'' \<and> ''#000000'' \<noteq> []
   \<and> classify_with_semantic [''#ffffff''] [''#ffffff'' \<mapsto> 1] [''background'' \<mapsto> ''#000000'']
     = Inr \<lparr>primary = ''#333333'', accent = ''#333333'', background = ''#000000'',
            text_color = ''#ffffff'', theme = ''dark''\<rparr>"
  using semantic_override[of "[''#ffffff'']" "[''#ffffff'' \<mapsto> 1]" "[''background'' \<mapsto> ''#000000'']"]
  by (simp add: classify_white classify_with_semantic_def apply_semantic_def lum_black)

section \<open>Properties of the fetch failure\<close>

text \<open>
  The claim C2 as stated fails: after a failed fetch \<open>extract_from_url\<close> returns at
  once, without a call of the classifier, a dictionary that has none of the four colour
  roles; and the text colour of the \<open>BrandIdentity\<close> that the caller builds from it
  without overrides is \<open>#ffffff\<close>, not \<open>#000000\<close>.
\<close>

theorem fetch_failure_lacks_roles:
  "extract_from_url (Inl ''timeout'')
     = Inr [''error'' \<mapsto> PStr ''timeout'', ''colors'' \<mapsto> PList [], ''theme'' \<mapsto> PStr ''light'']
   \<and> [''error'' \<mapsto> PStr ''timeout'', ''colors'' \<mapsto> PList [], ''theme'' \<mapsto> PStr ''light'']
        ''primary'' = None
   \<and> brand_text_color
        (extract_brand_identity \<lparr>arg_primary = None, arg_accent = None, arg_background = None\<rparr>
           [''error'' \<mapsto> PStr ''timeout'', ''colors'' \<mapsto> PList [], ''theme'' \<mapsto> PStr ''light''])
       = PStr ''#ffffff''"
  by (simp add: extract_from_url_def extract_brand_identity_def dict_get_def)

text \<open>
  C2, amended. When the page fetch fails with any message, \<open>extract_from_url\<close> returns
  a dictionary with exactly the keys \<open>error\<close> (the message), \<open>colors\<close> (the empty
  list) and \<open>theme\<close> (\<open>light\<close>). The caller \<open>extract_brand_identity\<close> fills the
  missing roles from its own defaults: the colour list is empty, the theme is
  \<open>light\<close>, and primary, accent and background are the command line override when
  one is given and \<open>#333333\<close>, \<open>#666666\<close> and \<open>#ffffff\<close> otherwise.
\<close>

theorem fetch_failure_defaults:
  "\<exists>d. extract_from_url (Inl e) = Inr d
     \<and> dom d = {''error'', ''colors'', ''theme''}
     \<and> d ''error'' = Some (PStr e) \<and> d ''colors'' = Some (PList [])
     \<and> d ''theme'' = Some (PStr ''light'')
     \<and> brand_colors (extract_brand_identity args d) = PList []
     \<and> brand_primary_color (extract_brand_identity args d)
         = arg_or (arg_primary args) (PStr ''#333333'')
     \<and> brand_accent_color (extract_brand_identity args d)
         = arg_or (arg_accent args) (PStr ''#666666'')
     \<and> brand_background_color (extract_brand_identity args d)
         = arg_or (arg_background args) (PStr ''#ffffff'')
     \<and> brand_theme (extract_brand_identity args d) = PStr ''light''"
  by (auto simp: extract_from_url_def extract_brand_identity_def dict_get_def)

section \<open>Properties of the semantic variables\<close>

subsection \<open>The patterns as decompositions of the text\<close>

lemma lit_Some: "lit p s = Some r \<longleftrightarrow> s = p @ r"
proof
  assume "lit p s = Some r"
  then have "take (length p) s = p" "r = drop (length p) s"
    by (auto simp: lit_def startswith_def split: if_splits)
  then show "s = p @ r" by (metis append_take_drop_id)
next
  assume "s = p @ r"
  then show "lit p s = Some r" by (simp add: lit_def startswith_def)
qed

lemma lit_ci_Some: "lit_ci p s = Some r \<longleftrightarrow> (\<exists>k. s = k @ r \<and> py_lower k = p)"
proof
  assume a: "lit_ci p s = Some r"
  then have l: "py_lower (take (length p) s) = p" and n: "length p \<le> length s"
    and r: "r = drop (length p) s"
    by (auto simp: lit_ci_def split: if_splits)
  have "s = take (length p) s @ r" using r by simp
  then show "\<exists>k. s = k @ r \<and> py_lower k = p" using l by blast
next
  assume "\<exists>k. s = k @ r \<and> py_lower k = p"
  then obtain k where s: "s = k @ r" and k: "py_lower k = p" by blast
  have "length k = length p" using k by (auto simp: py_lower_def)
  then show "lit_ci p s = Some r" using s k by (simp add: lit_ci_def)
qed

lemma hash_not_space: "\<not> py_isspace CHR ''#''"
  by (simp add: py_isspace_def)

lemma hex_run_unique:
  assumes "list_all is_hex h" "length h \<le> 6" "length h = 6 \<or> tail = [] \<or> \<not> is_hex (hd tail)"
  shows "take 6 (takeWhile is_hex (h @ tail)) = h"
proof -
  have t: "takeWhile is_hex (h @ tail) = h @ takeWhile is_hex tail"
    using assms(1) by (simp add: list_all_iff)
  show ?thesis
  proof (cases "length h = 6")
    case True
    then show ?thesis using t by simp
  next
    case False
    then have "takeWhile is_hex tail = []" using assms(3) by (simp add: takeWhile_eq_Nil_iff)
    then show ?thesis using t assms(2) by simp
  qed
qed

lemma hex_run_props:
  fixes s2 :: string
  defines "h \<equiv> take 6 (takeWhile is_hex s2)"
  shows "\<exists>tail. s2 = h @ tail \<and> list_all is_hex h \<and> length h \<le> 6
           \<and> (length h = 6 \<or> tail = [] \<or> \<not> is_hex (hd tail))"
proof -
  let ?t = "takeWhile is_hex s2"
  have hx: "list_all is_hex h"
    unfolding h_def list_all_iff by (auto dest: in_set_takeD set_takeWhileD)
  have le: "length h \<le> 6" unfolding h_def by simp
  show ?thesis
  proof (cases "length ?t \<le> 6")
    case True
    then have h: "h = ?t" unfolding h_def by simp
    have "s2 = h @ dropWhile is_hex s2" unfolding h by simp
    moreover have "dropWhile is_hex s2 = [] \<or> \<not> is_hex (hd (dropWhile is_hex s2))"
      using hd_dropWhile[of is_hex s2] by blast
    ultimately show ?thesis using hx le by blast
  next
    case False
    then have l6: "length h = 6" unfolding h_def by simp
    have "h = take 6 s2" unfolding h_def
      by (metis False takeWhile_eq_take take_take min.absorb1 linorder_le_cases)
    then have "s2 = h @ drop 6 s2" by simp
    then show ?thesis using hx le l6 by blast
  qed
qed

lemma sem_tail_iff:
  "sem_tail s = Some g \<longleftrightarrow>
     (\<exists>mid ws h tail. s = mid @ '':'' @ ws @ ''#'' @ h @ tail
        \<and> CHR '':'' \<notin> set mid \<and> list_all py_isspace ws
        \<and> list_all is_hex h \<and> 3 \<le> length h \<and> length h \<le> 6
        \<and> (length h = 6 \<or> tail = [] \<or> \<not> is_hex (hd tail))
        \<and> g = ''#'' @ h)"
proof
  assume a: "sem_tail s = Some g"
  let ?mid = "takeWhile (\<lambda>c. c \<noteq> CHR '':'') s"
  from a obtain s1 where s1: "lit '':'' (dropWhile (\<lambda>c. c \<noteq> CHR '':'') s) = Some s1"
    by (auto simp: sem_tail_def split: bind_splits)
  from a s1 obtain s2 where s2: "lit ''#'' (dropWhile py_isspace s1) = Some s2"
    by (auto simp: sem_tail_def split: bind_splits)
  let ?h = "take 6 (takeWhile is_hex s2)"
  from a s1 s2 have g: "g = ''#'' @ ?h" and l3: "3 \<le> length ?h"
    by (auto simp: sem_tail_def split: bind_splits if_splits)
  have e1: "s = ?mid @ '':'' @ s1"
    using s1 unfolding lit_Some by (metis takeWhile_dropWhile_id)
  have e2: "s1 = takeWhile py_isspace s1 @ ''#'' @ s2"
    using s2 unfolding lit_Some by (metis takeWhile_dropWhile_id)
  obtain tail where t: "s2 = ?h @ tail" "list_all is_hex ?h" "length ?h \<le> 6"
    "length ?h = 6 \<or> tail = [] \<or> \<not> is_hex (hd tail)"
    using hex_run_props[of s2] by blast
  have m: "CHR '':'' \<notin> set ?mid" by (auto dest: set_takeWhileD)
  have w: "list_all py_isspace (takeWhile py_isspace s1)"
    by (auto simp: list_all_iff dest: set_takeWhileD)
  have "s = ?mid @ '':'' @ takeWhile py_isspace s1 @ ''#'' @ ?h @ tail"
    using e1 e2 t(1) by simp
  then show "\<exists>mid ws h tail. s = mid @ '':'' @ ws @ ''#'' @ h @ tail
        \<and> CHR '':'' \<notin> set mid \<and> list_all py_isspace ws
        \<and> list_all is_hex h \<and> 3 \<le> length h \<and> length h \<le> 6
        \<and> (length h = 6 \<or> tail = [] \<or> \<not> is_hex (hd tail))
        \<and> g = ''#'' @ h"
    using m w t(2,3,4) l3 g by blast
next
  assume "\<exists>mid ws h tail. s = mid @ '':'' @ ws @ ''#'' @ h @ tail
        \<and> CHR '':'' \<notin> set mid \<and> list_all py_isspace ws
        \<and> list_all is_hex h \<and> 3 \<le> length h \<and> length h \<le> 6
        \<and> (length h = 6 \<or> tail = [] \<or> \<not> is_hex (hd tail))
        \<and> g = ''#'' @ h"
  then obtain mid ws h tail where s: "s = mid @ '':'' @ ws @ ''#'' @ h @ tail"
    and m: "CHR '':'' \<notin> set mid" and w: "list_all py_isspace ws"
    and h: "list_all is_hex h" "3 \<le> length h" "length h \<le> 6"
       "length h = 6 \<or> tail = [] \<or> \<not> is_hex (hd tail)"
    and g: "g = ''#'' @ h" by blast
  have d1: "dropWhile (\<lambda>c. c \<noteq> CHR '':'') s = '':'' @ ws @ ''#'' @ h @ tail"
  proof -
    have "\<forall>x\<in>set mid. x \<noteq> CHR '':''" using m by blast
    then show ?thesis unfolding s by simp
  qed
  have d2: "dropWhile py_isspace (ws @ ''#'' @ h @ tail) = ''#'' @ h @ tail"
    using w hash_not_space by (simp add: list_all_iff)
  have l1: "lit '':'' ('':'' @ ws @ ''#'' @ h @ tail) = Some (ws @ ''#'' @ h @ tail)"
    unfolding lit_Some by simp
  have l2: "lit ''#'' (''#'' @ h @ tail) = Some (h @ tail)"
    unfolding lit_Some by simp
  have r: "take 6 (takeWhile is_hex (h @ tail)) = h"
    using hex_run_unique[OF h(1) h(3) h(4)] .
  have r': "min (length (takeWhile is_hex (h @ tail))) 6 = length h"
    using r by (metis length_take)
  show "sem_tail s = Some g"
    unfolding sem_tail_def d1 l1 using d2 l2 r r' h(2) g by simp
qed


lemma lit_ci_unique:
  assumes "lit_ci a s = Some r1" "lit_ci b s = Some r2"
    and "take (length a) b = a \<longrightarrow> a = b" "take (length b) a = b \<longrightarrow> b = a"
  shows "a = b \<and> r1 = r2"
proof -
  from assms(1) have a: "py_lower (take (length a) s) = a" "length a \<le> length s"
    "r1 = drop (length a) s" by (auto simp: lit_ci_def split: if_splits)
  from assms(2) have b: "py_lower (take (length b) s) = b" "length b \<le> length s"
    "r2 = drop (length b) s" by (auto simp: lit_ci_def split: if_splits)
  have ab: "a = b"
  proof (cases "length a \<le> length b")
    case True
    have "take (length a) b = py_lower (take (length a) (take (length b) s))"
      using b(1) by (metis py_lower_def take_map)
    also have "\<dots> = py_lower (take (length a) s)" using True by (simp add: min_def)
    finally have "take (length a) b = a" using a(1) by simp
    then show ?thesis using assms(3) by blast
  next
    case False
    have "take (length b) a = py_lower (take (length b) (take (length a) s))"
      using a(1) by (metis py_lower_def take_map)
    also have "\<dots> = py_lower (take (length b) s)" using False by (simp add: min_def)
    finally have "take (length b) a = b" using b(1) by simp
    then show ?thesis using assms(4) by simp
  qed
  then show ?thesis using a(3) b(3) by simp
qed

lemma sem_keyword_SomeD:
  "sem_keyword kws s = Some g \<Longrightarrow>
     \<exists>kw\<in>set kws. \<exists>r. lit_ci kw s = Some r \<and> sem_tail r = Some g"
proof (induction kws)
  case Nil
  then show ?case by simp
next
  case (Cons k ks)
  show ?case
  proof (cases "lit_ci k s \<bind> sem_tail")
    case None
    then have "sem_keyword ks s = Some g" using Cons.prems by simp
    then show ?thesis using Cons.IH by auto
  next
    case (Some g')
    then have "g' = g" using Cons.prems by simp
    then show ?thesis using Some by (auto split: bind_splits)
  qed
qed

lemma sem_keyword_SomeI:
  assumes "\<forall>a\<in>set kws. \<forall>b\<in>set kws. take (length a) b = a \<longrightarrow> a = b"
    and "kw \<in> set kws" "lit_ci kw s = Some r" "sem_tail r = Some g"
  shows "sem_keyword kws s = Some g"
  using assms
proof (induction kws)
  case Nil
  then show ?case by simp
next
  case (Cons k ks)
  show ?case
  proof (cases "lit_ci k s \<bind> sem_tail")
    case None
    then have "kw \<noteq> k" using Cons.prems(3,4) by auto
    then have "kw \<in> set ks" using Cons.prems(2) by simp
    then have "sem_keyword ks s = Some g" using Cons.IH Cons.prems by simp
    then show ?thesis using None by simp
  next
    case (Some g')
    then obtain r' where r': "lit_ci k s = Some r'" "sem_tail r' = Some g'"
      by (auto split: bind_splits)
    have p1: "take (length k) kw = k \<longrightarrow> k = kw"
      using Cons.prems(1,2) by (meson list.set_intros(1))
    have p2: "take (length kw) k = kw \<longrightarrow> kw = k"
      using Cons.prems(1,2) by (meson list.set_intros(1))
    have "k = kw \<and> r' = r"
      using lit_ci_unique[OF r'(1) Cons.prems(3) p1 p2] .
    then have "g' = g" using r'(2) Cons.prems(4) by simp
    then show ?thesis using Some by simp
  qed
qed

lemma lit_ci_color_None:
  assumes "py_lower k \<noteq> []" "hd (py_lower k) \<noteq> CHR ''c''"
  shows "lit_ci ''color-'' (k @ r) = None"
proof -
  obtain x xs where k: "k = x # xs" using assms(1) by (cases k) (auto simp: py_lower_def)
  have "py_lower_char x \<noteq> CHR ''c''" using assms(2) unfolding k by (simp add: py_lower_def)
  then show ?thesis unfolding k by (simp add: lit_ci_def py_lower_def)
qed

lemma sem_pattern_iff:
  assumes pf: "\<forall>a\<in>set kws. \<forall>b\<in>set kws. take (length a) b = a \<longrightarrow> a = b"
    and nc: "\<forall>kw\<in>set kws. kw \<noteq> [] \<and> hd kw \<noteq> CHR ''c''"
  shows "sem_pattern kws s = Some g \<longleftrightarrow> (\<exists>h. g = ''#'' @ h \<and> sem_occurrence kws s [] h)"
proof
  assume a: "sem_pattern kws s = Some g"
  then obtain s1 where s1: "lit ''--'' s = Some s1"
    by (auto simp: sem_pattern_def split: bind_splits)
  then have s: "s = ''--'' @ s1" unfolding lit_Some .
  have "\<exists>c s2. s1 = c @ s2 \<and> (c = [] \<or> py_lower c = ''color-'') \<and> sem_keyword kws s2 = Some g"
  proof (cases "lit_ci ''color-'' s1 \<bind> sem_keyword kws")
    case None
    then have "sem_keyword kws s1 = Some g" using a s1 by (simp add: sem_pattern_def)
    then have "s1 = [] @ s1 \<and> sem_keyword kws s1 = Some g" by simp
    then show ?thesis by blast
  next
    case (Some g')
    then have "g' = g" using a s1 by (simp add: sem_pattern_def)
    then obtain s2 where "lit_ci ''color-'' s1 = Some s2" "sem_keyword kws s2 = Some g"
      using Some by (auto split: bind_splits)
    then show ?thesis unfolding lit_ci_Some by blast
  qed
  then obtain c s2 where c: "s1 = c @ s2" "c = [] \<or> py_lower c = ''color-''"
    and k: "sem_keyword kws s2 = Some g" by blast
  from sem_keyword_SomeD[OF k] obtain kw r where kw: "kw \<in> set kws"
    and r: "lit_ci kw s2 = Some r" and t: "sem_tail r = Some g" by blast
  from r obtain k' where k': "s2 = k' @ r" "py_lower k' = kw" unfolding lit_ci_Some by blast
  from t obtain mid ws h tail where d: "r = mid @ '':'' @ ws @ ''#'' @ h @ tail"
    "CHR '':'' \<notin> set mid" "list_all py_isspace ws" "list_all is_hex h" "3 \<le> length h"
    "length h \<le> 6" "length h = 6 \<or> tail = [] \<or> \<not> is_hex (hd tail)" "g = ''#'' @ h"
    unfolding sem_tail_iff by blast
  have "s = [] @ ''--'' @ c @ k' @ mid @ '':'' @ ws @ ''#'' @ h @ tail"
    using s c(1) k'(1) d(1) by simp
  then have "sem_occurrence kws s [] h"
    unfolding sem_occurrence_def using c(2) k'(2) kw d(2-7) by blast
  then show "\<exists>h. g = ''#'' @ h \<and> sem_occurrence kws s [] h" using d(8) by blast
next
  assume "\<exists>h. g = ''#'' @ h \<and> sem_occurrence kws s [] h"
  then obtain h c k' mid ws tail where g: "g = ''#'' @ h"
    and s: "s = [] @ ''--'' @ c @ k' @ mid @ '':'' @ ws @ ''#'' @ h @ tail"
    and c: "c = [] \<or> py_lower c = ''color-''" and kw: "py_lower k' \<in> set kws"
    and d: "CHR '':'' \<notin> set mid" "list_all py_isspace ws" "list_all is_hex h" "3 \<le> length h"
    "length h \<le> 6" "length h = 6 \<or> tail = [] \<or> \<not> is_hex (hd tail)"
    unfolding sem_occurrence_def by blast
  let ?r = "mid @ '':'' @ ws @ ''#'' @ h @ tail"
  have t: "sem_tail ?r = Some g" unfolding sem_tail_iff using d g by blast
  have l: "lit_ci (py_lower k') (k' @ ?r) = Some ?r" unfolding lit_ci_Some by blast
  have k: "sem_keyword kws (k' @ ?r) = Some g"
    using sem_keyword_SomeI[OF pf kw l t] .
  have s1: "lit ''--'' s = Some (c @ k' @ ?r)" unfolding lit_Some using s by simp
  show "sem_pattern kws s = Some g"
  proof (cases "c = []")
    case True
    have "lit_ci ''color-'' (k' @ ?r) = None"
      using lit_ci_color_None[of k' ?r] nc kw by blast
    then show ?thesis using s1 k True by (simp add: sem_pattern_def)
  next
    case False
    then have "py_lower c = ''color-''" using c by blast
    then have "lit_ci ''color-'' (c @ k' @ ?r) = Some (k' @ ?r)" unfolding lit_ci_Some by blast
    then show ?thesis using s1 k by (simp add: sem_pattern_def)
  qed
qed

lemma sem_search_iff:
  "sem_search kws css = Some g \<longleftrightarrow>
     (\<exists>n\<le>length css. sem_pattern kws (drop n css) = Some g
        \<and> (\<forall>m<n. sem_pattern kws (drop m css) = None))"
proof (induction css)
  case Nil
  then show ?case by simp
next
  case (Cons c cs)
  show ?case
  proof (cases "sem_pattern kws (c # cs)")
    case (Some g0)
    have "(\<exists>n\<le>length (c # cs). sem_pattern kws (drop n (c # cs)) = Some g
        \<and> (\<forall>m<n. sem_pattern kws (drop m (c # cs)) = None)) \<longleftrightarrow> g0 = g"
    proof
      assume "\<exists>n\<le>length (c # cs). sem_pattern kws (drop n (c # cs)) = Some g
        \<and> (\<forall>m<n. sem_pattern kws (drop m (c # cs)) = None)"
      then obtain n where n: "sem_pattern kws (drop n (c # cs)) = Some g"
        "\<forall>m<n. sem_pattern kws (drop m (c # cs)) = None" by blast
      have "n = 0"
      proof (rule ccontr)
        assume "n \<noteq> 0"
        then have "sem_pattern kws (drop 0 (c # cs)) = None" using n(2) by blast
        then show False using Some by simp
      qed
      then show "g0 = g" using n(1) Some by simp
    next
      assume "g0 = g"
      then have "sem_pattern kws (drop 0 (c # cs)) = Some g
        \<and> (\<forall>m<0. sem_pattern kws (drop m (c # cs)) = None)" using Some by simp
      then show "\<exists>n\<le>length (c # cs). sem_pattern kws (drop n (c # cs)) = Some g
        \<and> (\<forall>m<n. sem_pattern kws (drop m (c # cs)) = None)" by blast
    qed
    then show ?thesis using Some by simp
  next
    case None
    have "(\<exists>n\<le>length (c # cs). sem_pattern kws (drop n (c # cs)) = Some g
        \<and> (\<forall>m<n. sem_pattern kws (drop m (c # cs)) = None))
      \<longleftrightarrow> (\<exists>n\<le>length cs. sem_pattern kws (drop n cs) = Some g
        \<and> (\<forall>m<n. sem_pattern kws (drop m cs) = None))"
    proof
      assume "\<exists>n\<le>length (c # cs). sem_pattern kws (drop n (c # cs)) = Some g
        \<and> (\<forall>m<n. sem_pattern kws (drop m (c # cs)) = None)"
      then obtain n where n: "n \<le> length (c # cs)" "sem_pattern kws (drop n (c # cs)) = Some g"
        "\<forall>m<n. sem_pattern kws (drop m (c # cs)) = None" by blast
      have "n \<noteq> 0" using n(2) None by (cases n) auto
      then obtain n' where n': "n = Suc n'" by (cases n) auto
      have "\<forall>m<n'. sem_pattern kws (drop m cs) = None"
      proof (intro allI impI)
        fix m assume "m < n'"
        then have "Suc m < n" using n' by simp
        then have "sem_pattern kws (drop (Suc m) (c # cs)) = None" using n(3) by blast
        then show "sem_pattern kws (drop m cs) = None" by simp
      qed
      moreover have "n' \<le> length cs" "sem_pattern kws (drop n' cs) = Some g"
        using n(1,2) n' by auto
      ultimately show "\<exists>n\<le>length cs. sem_pattern kws (drop n cs) = Some g
        \<and> (\<forall>m<n. sem_pattern kws (drop m cs) = None)" by blast
    next
      assume "\<exists>n\<le>length cs. sem_pattern kws (drop n cs) = Some g
        \<and> (\<forall>m<n. sem_pattern kws (drop m cs) = None)"
      then obtain n where n: "n \<le> length cs" "sem_pattern kws (drop n cs) = Some g"
        "\<forall>m<n. sem_pattern kws (drop m cs) = None" by blast
      have "\<forall>m<Suc n. sem_pattern kws (drop m (c # cs)) = None"
      proof (intro allI impI)
        fix m assume m: "m < Suc n"
        show "sem_pattern kws (drop m (c # cs)) = None"
        proof (cases m)
          case 0
          then show ?thesis using None by simp
        next
          case (Suc m')
          then have "m' < n" using m by simp
          then show ?thesis using n(3) Suc by simp
        qed
      qed
      moreover have "Suc n \<le> length (c # cs)" "sem_pattern kws (drop (Suc n) (c # cs)) = Some g"
        using n(1,2) by auto
      ultimately show "\<exists>n\<le>length (c # cs). sem_pattern kws (drop n (c # cs)) = Some g
        \<and> (\<forall>m<n. sem_pattern kws (drop m (c # cs)) = None)" by blast
    qed
    then show ?thesis using None Cons.IH by simp
  qed
qed

lemma sem_occurrence_drop:
  "sem_occurrence kws css pre h \<longleftrightarrow>
     (length pre \<le> length css \<and> pre = take (length pre) css
      \<and> sem_occurrence kws (drop (length pre) css) [] h)"
proof
  assume "sem_occurrence kws css pre h"
  then obtain c kw mid ws tail where
    s: "css = pre @ ''--'' @ c @ kw @ mid @ '':'' @ ws @ ''#'' @ h @ tail"
    and r: "c = [] \<or> py_lower c = ''color-''" "py_lower kw \<in> set kws"
       "CHR '':'' \<notin> set mid" "list_all py_isspace ws" "list_all is_hex h" "3 \<le> length h"
       "length h \<le> 6" "length h = 6 \<or> tail = [] \<or> \<not> is_hex (hd tail)"
    unfolding sem_occurrence_def by blast
  have "drop (length pre) css = [] @ ''--'' @ c @ kw @ mid @ '':'' @ ws @ ''#'' @ h @ tail"
    unfolding s by simp
  then have "sem_occurrence kws (drop (length pre) css) [] h"
    unfolding sem_occurrence_def using r by blast
  moreover have "length pre \<le> length css" "pre = take (length pre) css" unfolding s by simp_all
  ultimately show "length pre \<le> length css \<and> pre = take (length pre) css
      \<and> sem_occurrence kws (drop (length pre) css) [] h" by blast
next
  assume a: "length pre \<le> length css \<and> pre = take (length pre) css
      \<and> sem_occurrence kws (drop (length pre) css) [] h"
  then obtain c kw mid ws tail where
    s: "drop (length pre) css = [] @ ''--'' @ c @ kw @ mid @ '':'' @ ws @ ''#'' @ h @ tail"
    and r: "c = [] \<or> py_lower c = ''color-''" "py_lower kw \<in> set kws"
       "CHR '':'' \<notin> set mid" "list_all py_isspace ws" "list_all is_hex h" "3 \<le> length h"
       "length h \<le> 6" "length h = 6 \<or> tail = [] \<or> \<not> is_hex (hd tail)"
    unfolding sem_occurrence_def by blast
  have "css = take (length pre) css @ drop (length pre) css" by simp
  then have "css = pre @ ''--'' @ c @ kw @ mid @ '':'' @ ws @ ''#'' @ h @ tail"
    using a s by (metis append_Nil)
  then show "sem_occurrence kws css pre h"
    unfolding sem_occurrence_def using r by blast
qed

lemma hex_lower:
  assumes "is_hex c"
  shows "py_lower_char c \<in> set ''0123456789abcdef''"
proof -
  have "\<forall>x\<in>set ''0123456789abcdefABCDEF''. py_lower_char x \<in> set ''0123456789abcdef''"
    by code_simp
  then show ?thesis using assms unfolding is_hex_def by blast
qed

lemma hex_not_space:
  assumes "is_hex c"
  shows "\<not> py_isspace c"
proof -
  have "\<forall>x\<in>set ''0123456789abcdefABCDEF''. \<not> py_isspace x"
    by code_simp
  then show ?thesis using assms unfolding is_hex_def by blast
qed

lemma semantic_keywords_good:
  assumes "(role, kws) \<in> set SEMANTIC_VAR_PATTERNS"
  shows "(\<forall>a\<in>set kws. \<forall>b\<in>set kws. take (length a) b = a \<longrightarrow> a = b)
       \<and> (\<forall>kw\<in>set kws. kw \<noteq> [] \<and> hd kw \<noteq> CHR ''c'')"
proof -
  have "\<forall>e\<in>set SEMANTIC_VAR_PATTERNS.
          (\<forall>a\<in>set (snd e). \<forall>b\<in>set (snd e). take (length a) b = a \<longrightarrow> a = b)
        \<and> (\<forall>kw\<in>set (snd e). kw \<noteq> [] \<and> hd kw \<noteq> CHR ''c'')"
    by code_simp
  then show ?thesis using assms by fastforce
qed


lemma lower_hash: "py_lower_char CHR ''#'' = CHR ''#''"
  by code_simp

lemma py_strip_hex_literal:
  assumes "list_all is_hex h" "h \<noteq> []"
  shows "py_strip (''#'' @ h) = ''#'' @ h"
proof -
  have d: "dropWhile py_isspace (''#'' @ h) = ''#'' @ h"
    using hash_not_space by simp
  have "last h \<in> set h" using assms(2) by simp
  then have "\<not> py_isspace (last h)" using assms(1) hex_not_space by (auto simp: list_all_iff)
  then have "\<not> py_isspace (hd (rev (''#'' @ h)))" using assms(2) by (simp add: hd_rev)
  then have "dropWhile py_isspace (rev (''#'' @ h)) = rev (''#'' @ h)"
    unfolding dropWhile_eq_self_iff by blast
  then show ?thesis unfolding py_strip_def d by simp
qed

lemma normalize_hex_literal:
  assumes "list_all is_hex h" "3 \<le> length h"
  shows "normalize_color (''#'' @ h) =
           (if length h = 3 then Some (''#'' @ double_chars (py_lower h))
            else if length h = 6 then Some (''#'' @ py_lower h) else None)"
proof -
  have ne: "h \<noteq> []" using assms(2) by auto
  have low: "list_all (\<lambda>c. c \<in> set ''0123456789abcdef'') (py_lower h)"
    using assms(1) hex_lower unfolding py_lower_def list_all_iff by auto
  have lowd: "list_all (\<lambda>c. c \<in> set ''0123456789abcdef'') (double_chars (py_lower h))"
    using low unfolding double_chars_def list_all_iff by auto
  have "py_lower h \<noteq> []" using ne by (simp add: py_lower_def)
  then have "hd (py_lower h) \<in> set (py_lower h)" by (rule hd_in_set)
  then have "hd (py_lower h) \<in> set ''0123456789abcdef''" using low unfolding list_all_iff by blast
  then have "hd (py_lower h) \<noteq> CHR ''#''" by auto
  then have ls: "lstrip_hash (''#'' @ py_lower h) = py_lower h"
    unfolding lstrip_hash_def using ne
    by (simp add: dropWhile_eq_self_iff)
  have lo: "py_lower (''#'' @ h) = ''#'' @ py_lower h"
    by (simp add: py_lower_def lower_hash)
  have sw: "startswith (''#'' @ py_lower h) ''#''" by (simp add: startswith_def)
  have len: "length (py_lower h) = length h" by (simp add: py_lower_def)
  have lend: "length (double_chars (py_lower h)) = 2 * length h"
    unfolding double_chars_def py_lower_def by (induction h) auto
  show ?thesis
    unfolding normalize_color_def py_strip_hex_literal[OF assms(1) ne] lo Let_def ls
    using sw low lowd len lend by simp
qed


lemma semantic_step_apply:
  "semantic_step css result (key, kws) role =
     (if role = key then
        (case sem_search kws css of
           None \<Rightarrow> result role
         | Some g \<Rightarrow>
             (case normalize_color g of
                None \<Rightarrow> result role
              | Some n \<Rightarrow> if n \<noteq> [] then Some n else result role))
      else result role)"
  by (simp add: semantic_step_def split: option.splits)

lemma extract_semantic_vars_lookup:
  "extract_semantic_vars css role =
     (case map_of SEMANTIC_VAR_PATTERNS role of
        None \<Rightarrow> None
      | Some kws \<Rightarrow>
          (case sem_search kws css of
             None \<Rightarrow> None
           | Some g \<Rightarrow>
               (case normalize_color g of
                  None \<Rightarrow> None
                | Some n \<Rightarrow> if n \<noteq> [] then Some n else None)))"
proof -
  have e: "extract_semantic_vars css role =
     semantic_step css
       (semantic_step css
          (semantic_step css Map.empty (''primary'', [''primary'']))
          (''accent'', [''accent'', ''secondary'', ''highlight'']))
       (''background'', [''background'', ''bg'']) role"
    by (simp add: extract_semantic_vars_def SEMANTIC_VAR_PATTERNS_def)
  consider "role = ''primary''" | "role = ''accent''" | "role = ''background''"
    | "role \<noteq> ''primary'' \<and> role \<noteq> ''accent'' \<and> role \<noteq> ''background''" by blast
  then show ?thesis
  proof cases
    case 1
    show ?thesis unfolding e semantic_step_apply unfolding 1
      by (simp add: SEMANTIC_VAR_PATTERNS_def)
  next
    case 2
    show ?thesis unfolding e semantic_step_apply unfolding 2
      by (simp add: SEMANTIC_VAR_PATTERNS_def)
  next
    case 3
    show ?thesis unfolding e semantic_step_apply unfolding 3
      by (simp add: SEMANTIC_VAR_PATTERNS_def)
  next
    case 4
    show ?thesis unfolding e semantic_step_apply using 4
      by (simp add: SEMANTIC_VAR_PATTERNS_def)
  qed
qed


text \<open>
  The claim C4 as stated fails. The property \<open>--brand-primary\<close> has a name that
  contains \<open>primary\<close> and a hex value, and gives no hint: the keyword has to follow
  \<open>--\<close> or \<open>--color-\<close> at once. And a first property whose value has four hex digits
  hides a later one with a good value.
\<close>

theorem semantic_hint_not_by_containment:
  "extract_semantic_vars ''--brand-primary: #ff0000;'' ''primary'' = None
   \<and> extract_semantic_vars ''--primary: #abcd; --primary: #ffffff;'' ''primary'' = None"
  by code_simp

text \<open>
  C4, amended. The hint has a value \<open>v\<close> for a role iff the role is one of
  \<open>primary\<close>, \<open>accent\<close>, \<open>background\<close> and, at the leftmost place of the CSS text
  where \<open>--\<close>, an optional \<open>color-\<close>, one of the role's keywords (\<open>primary\<close>;
  \<open>accent\<close>, \<open>secondary\<close>, \<open>highlight\<close>; \<open>background\<close>, \<open>bg\<close>; case ignored),
  characters other than a colon, a colon, optional white space and \<open>#\<close> with at least
  three hex digits stand, the run of hex digits (cut after six) has exactly three or six
  digits; \<open>v\<close> is then \<open>#\<close> and that run in lower case, each digit doubled when there
  are three. So only a hex literal gives a hint, and the first match decides.
\<close>

theorem semantic_hint_leftmost:
  "extract_semantic_vars css role = Some v \<longleftrightarrow>
     (\<exists>kws pre h. (role, kws) \<in> set SEMANTIC_VAR_PATTERNS
        \<and> sem_occurrence kws css pre h
        \<and> (\<forall>pre' h'. sem_occurrence kws css pre' h' \<longrightarrow> length pre \<le> length pre')
        \<and> (length h = 3 \<and> v = ''#'' @ double_chars (py_lower h)
             \<or> length h = 6 \<and> v = ''#'' @ py_lower h))"
proof
  assume a: "extract_semantic_vars css role = Some v"
  then obtain kws where kws: "map_of SEMANTIC_VAR_PATTERNS role = Some kws"
    unfolding extract_semantic_vars_lookup by (auto split: option.splits)
  then have mem: "(role, kws) \<in> set SEMANTIC_VAR_PATTERNS" by (rule map_of_SomeD)
  from a kws obtain g where g: "sem_search kws css = Some g" and nv: "normalize_color g = Some v"
    unfolding extract_semantic_vars_lookup by (auto split: option.splits if_splits)
  note good = semantic_keywords_good[OF mem]
  note pat = sem_pattern_iff[OF good[THEN conjunct1] good[THEN conjunct2]]
  from g obtain n where n: "n \<le> length css" "sem_pattern kws (drop n css) = Some g"
    "\<forall>m<n. sem_pattern kws (drop m css) = None" unfolding sem_search_iff by blast
  from n(2) obtain h where h: "g = ''#'' @ h" "sem_occurrence kws (drop n css) [] h"
    unfolding pat by blast
  have ln: "length (take n css) = n" using n(1) by simp
  have occ: "sem_occurrence kws css (take n css) h"
    unfolding sem_occurrence_drop[of kws css "take n css" h] ln using h(2) n(1) by simp
  have left: "\<forall>pre' h'. sem_occurrence kws css pre' h' \<longrightarrow> length (take n css) \<le> length pre'"
  proof (intro allI impI)
    fix pre' h' assume "sem_occurrence kws css pre' h'"
    then have "sem_occurrence kws (drop (length pre') css) [] h'"
      unfolding sem_occurrence_drop[of kws css pre' h'] by blast
    then have "sem_pattern kws (drop (length pre') css) = Some (''#'' @ h')"
      unfolding pat by blast
    then have "\<not> length pre' < n" using n(3) by auto
    then show "length (take n css) \<le> length pre'" using ln by simp
  qed
  have hx: "list_all is_hex h" "3 \<le> length h"
    using h(2) unfolding sem_occurrence_def by auto
  have "length h = 3 \<and> v = ''#'' @ double_chars (py_lower h)
             \<or> length h = 6 \<and> v = ''#'' @ py_lower h"
    using nv unfolding h(1) normalize_hex_literal[OF hx] by (auto split: if_splits)
  then show "\<exists>kws pre h. (role, kws) \<in> set SEMANTIC_VAR_PATTERNS
        \<and> sem_occurrence kws css pre h
        \<and> (\<forall>pre' h'. sem_occurrence kws css pre' h' \<longrightarrow> length pre \<le> length pre')
        \<and> (length h = 3 \<and> v = ''#'' @ double_chars (py_lower h)
             \<or> length h = 6 \<and> v = ''#'' @ py_lower h)"
    using mem occ left by blast
next
  assume "\<exists>kws pre h. (role, kws) \<in> set SEMANTIC_VAR_PATTERNS
        \<and> sem_occurrence kws css pre h
        \<and> (\<forall>pre' h'. sem_occurrence kws css pre' h' \<longrightarrow> length pre \<le> length pre')
        \<and> (length h = 3 \<and> v = ''#'' @ double_chars (py_lower h)
             \<or> length h = 6 \<and> v = ''#'' @ py_lower h)"
  then obtain kws pre h where mem: "(role, kws) \<in> set SEMANTIC_VAR_PATTERNS"
    and occ: "sem_occurrence kws css pre h"
    and left: "\<forall>pre' h'. sem_occurrence kws css pre' h' \<longrightarrow> length pre \<le> length pre'"
    and v: "length h = 3 \<and> v = ''#'' @ double_chars (py_lower h)
             \<or> length h = 6 \<and> v = ''#'' @ py_lower h" by blast
  have "distinct (map fst SEMANTIC_VAR_PATTERNS)" by (simp add: SEMANTIC_VAR_PATTERNS_def)
  then have kws: "map_of SEMANTIC_VAR_PATTERNS role = Some kws" using mem by simp
  note good = semantic_keywords_good[OF mem]
  note pat = sem_pattern_iff[OF good[THEN conjunct1] good[THEN conjunct2]]
  let ?n = "length pre"
  have o: "?n \<le> length css" "sem_occurrence kws (drop ?n css) [] h"
    using occ unfolding sem_occurrence_drop[of kws css pre h] by blast+
  have p: "sem_pattern kws (drop ?n css) = Some (''#'' @ h)" unfolding pat using o(2) by blast
  have none: "\<forall>m<?n. sem_pattern kws (drop m css) = None"
  proof (intro allI impI)
    fix m assume m: "m < ?n"
    show "sem_pattern kws (drop m css) = None"
    proof (cases "sem_pattern kws (drop m css)")
      case None
      then show ?thesis .
    next
      case (Some g')
      then obtain h' where "sem_occurrence kws (drop m css) [] h'" unfolding pat by blast
      moreover have "length (take m css) = m" using m o(1) by simp
      ultimately have "sem_occurrence kws css (take m css) h'"
        unfolding sem_occurrence_drop[of kws css "take m css" h'] using m o(1) by simp
      then have "?n \<le> length (take m css)" using left by blast
      then show ?thesis using m by simp
    qed
  qed
  have s: "sem_search kws css = Some (''#'' @ h)"
    unfolding sem_search_iff using o(1) p none by blast
  have hx: "list_all is_hex h" "3 \<le> length h"
    using occ unfolding sem_occurrence_def by auto
  have "normalize_color (''#'' @ h) = Some v"
    unfolding normalize_hex_literal[OF hx] using v by auto
  moreover have "v \<noteq> []" using v by auto
  ultimately show "extract_semantic_vars css role = Some v"
    unfolding extract_semantic_vars_lookup using kws s by simp
qed

theorem semantic_hint_leftmost_witness:
  "extract_semantic_vars ''a { --Color-Primary-x : #AbC; --primary: #123456 }'' ''primary''
     = Some ''#aabbcc''
   \<and> (\<exists>kws pre h. (''primary'', kws) \<in> set SEMANTIC_VAR_PATTERNS
        \<and> sem_occurrence kws ''a { --Color-Primary-x : #AbC; --primary: #123456 }'' pre h
        \<and> (\<forall>pre' h'.
              sem_occurrence kws ''a { --Color-Primary-x : #AbC; --primary: #123456 }'' pre' h'
              \<longrightarrow> length pre \<le> length pre')
        \<and> (length h = 3 \<and> ''#aabbcc'' = ''#'' @ double_chars (py_lower h)
             \<or> length h = 6 \<and> ''#aabbcc'' = ''#'' @ py_lower h))"
proof -
  have e: "extract_semantic_vars ''a { --Color-Primary-x : #AbC; --primary: #123456 }''
             ''primary'' = Some ''#aabbcc''"
    by code_simp
  show ?thesis
    using e semantic_hint_leftmost[of "''a { --Color-Primary-x : #AbC; --primary: #123456 }''"
        "''primary''" "''#aabbcc''"]
    by blast
qed

section \<open>Properties of the colour utilities\<close>

subsection \<open>What holds on well-formed colours\<close>

text \<open>
  \<open>hex_to_rgb\<close> returns black for every string that has neither three nor six
  characters after its leading \<open>#\<close>. The hex branch of \<open>normalize_color\<close> returns
  canonical strings only, the \<open>rgb()\<close> branch does when the three channels are at most
  255, and a canonical string normalises to itself.
\<close>

lemma hex_to_rgb_other_length:
  assumes "length (lstrip_hash s) \<noteq> 3" "length (lstrip_hash s) \<noteq> 6"
  shows "hex_to_rgb s = (0, 0, 0)"
  using assms by (simp add: hex_to_rgb_def)

lemma normalize_hex_branch:
  assumes "startswith (py_lower (py_strip s)) ''#''" "normalize_color s = Some v"
  shows "canonical_hex v"
  using assms by (auto simp: normalize_color_def Let_def canonical_hex_def split: if_splits)

lemma lower_hex_fixed:
  assumes "c \<in> set ''0123456789abcdef''"
  shows "py_lower_char c = c \<and> is_hex c"
proof -
  have "\<forall>x\<in>set ''0123456789abcdef''. py_lower_char x = x \<and> is_hex x" by code_simp
  then show ?thesis using assms by blast
qed

lemma normalize_canonical:
  assumes "canonical_hex v"
  shows "normalize_color v = Some v"
proof -
  obtain h where v: "v = ''#'' @ h" and l: "length h = 6"
    and lo: "list_all (\<lambda>c. c \<in> set ''0123456789abcdef'') h"
    using assms unfolding canonical_hex_def by (cases v) auto
  have hx: "list_all is_hex h" using lo lower_hex_fixed unfolding list_all_iff by blast
  have "py_lower h = h" unfolding py_lower_def using lo lower_hex_fixed
    by (simp add: list_all_iff map_idI)
  then show ?thesis unfolding v using normalize_hex_literal[OF hx] l by simp
qed

lemma hex_digit_char: "k < 16 \<Longrightarrow> ''0123456789abcdef'' ! k \<in> set ''0123456789abcdef''"
  by (rule nth_mem) simp

lemma format_02x_byte:
  assumes "0 \<le> i" "i \<le> 255"
  shows "length (format_02x i) = 2
       \<and> list_all (\<lambda>c. c \<in> set ''0123456789abcdef'') (format_02x i)"
proof (cases "nat i < 16")
  case True
  have z: "CHR ''0'' \<in> set ''0123456789abcdef''" by simp
  have "hex_digits (nat i) = [''0123456789abcdef'' ! nat i]"
    using True by (subst hex_digits.simps) simp
  then show ?thesis using assms True hex_digit_char[of "nat i"] z
    by (simp add: format_02x_def del: set_simps list.set)
next
  case False
  have d: "nat i div 16 < 16" using assms by linarith
  have m: "nat i mod 16 < 16" by simp
  have "hex_digits (nat i div 16) = [''0123456789abcdef'' ! (nat i div 16)]"
    using d by (subst hex_digits.simps) simp
  then have "hex_digits (nat i) =
      [''0123456789abcdef'' ! (nat i div 16), ''0123456789abcdef'' ! (nat i mod 16)]"
    using False by (subst hex_digits.simps) simp
  then show ?thesis using assms hex_digit_char[OF d] hex_digit_char[OF m]
    by (simp add: format_02x_def del: set_simps list.set)
qed

lemma rgb_to_hex_canonical:
  assumes "0 \<le> r" "r \<le> 255" "0 \<le> g" "g \<le> 255" "0 \<le> b" "b \<le> 255"
  shows "canonical_hex (rgb_to_hex r g b)"
  using format_02x_byte[OF assms(1,2)] format_02x_byte[OF assms(3,4)]
        format_02x_byte[OF assms(5,6)]
  by (simp add: canonical_hex_def rgb_to_hex_def)

lemma normalize_rgb_branch:
  assumes "\<not> startswith (py_lower (py_strip s)) ''#''" "normalize_color s = Some v"
  shows "\<exists>r g b. rgb_search (py_lower (py_strip s)) = Some (r, g, b)
           \<and> v = rgb_to_hex (int_of_digits r) (int_of_digits g) (int_of_digits b)"
  using assms
  by (auto simp: normalize_color_def Let_def parse_rgb_string_def split: if_splits option.splits)


lemma hex_digit_value_nonneg:
  assumes "hex_digit_value c = Some d"
  shows "0 \<le> d"
proof -
  have "\<forall>x\<in>set ''0123456789abcdefABCDEF''.
          (case hex_digit_value x of Some d \<Rightarrow> 0 \<le> d | None \<Rightarrow> True)"
    by code_simp
  moreover have "c \<in> set ''0123456789abcdefABCDEF''"
    using assms unfolding hex_digit_value_def by (blast dest: map_of_SomeD set_zip_leftD)
  ultimately show ?thesis using assms by fastforce
qed

lemma int_of_digits_nonneg: "0 \<le> int_of_digits s"
proof -
  have "0 \<le> a \<Longrightarrow>
        0 \<le> foldl (\<lambda>a c. 10 * a + (case hex_digit_value c of Some d \<Rightarrow> d | None \<Rightarrow> 0)) a s"
    for a
  proof (induction s arbitrary: a)
    case Nil
    then show ?case by simp
  next
    case (Cons c cs)
    have "0 \<le> (case hex_digit_value c of Some d \<Rightarrow> d | None \<Rightarrow> 0)"
      using hex_digit_value_nonneg by (cases "hex_digit_value c") auto
    then have "0 \<le> 10 * a + (case hex_digit_value c of Some d \<Rightarrow> d | None \<Rightarrow> 0)"
      using Cons.prems by simp
    then show ?case using Cons.IH by simp
  qed
  then show ?thesis unfolding int_of_digits_def by simp
qed

lemma normalize_rgb_in_range:
  assumes "\<not> startswith (py_lower (py_strip s)) ''#''"
    and "normalize_color s = Some v"
    and "rgb_search (py_lower (py_strip s)) = Some (r, g, b)"
    and "int_of_digits r \<le> 255" "int_of_digits g \<le> 255" "int_of_digits b \<le> 255"
  shows "canonical_hex v"
proof -
  have "v = rgb_to_hex (int_of_digits r) (int_of_digits g) (int_of_digits b)"
    using normalize_rgb_branch[OF assms(1,2)] assms(3) by simp
  then show ?thesis
    using rgb_to_hex_canonical[OF int_of_digits_nonneg assms(4) int_of_digits_nonneg assms(5)
        int_of_digits_nonneg assms(6)] by simp
qed

subsection \<open>Where the utilities leave their documentation\<close>

text \<open>
  C10. \<open>hex_to_rgb\<close> is total, but it does not return black for every string that
  is not three or six hex digits: \<open>int(s, 16)\<close> accepts a sign or white space next to
  one hex digit, so \<open>#-f0000\<close> gives the red channel \<open>-15\<close>. Its luminance is
  negative and it is not grey within tolerance 10.
\<close>

theorem hex_to_rgb_signed_pair:
  "hex_to_rgb ''#-f0000'' = (- 15, 0, 0)
   \<and> luminance ''#-f0000'' < 0
   \<and> \<not> is_grayscale ''#-f0000'' 10"
  by (simp add: luminance_def gamma_def is_grayscale_def rgb_minus)

text \<open>
  C3. \<open>normalize_color\<close> does not always return \<open>#\<close> and six hex digits: an
  \<open>rgb()\<close> form with a channel above 255 is formatted with more than two digits, and
  the collector emits the result.
\<close>

theorem normalize_rgb_out_of_range:
  "normalize_color ''rgb(256, 0, 0)'' = Some ''#1000000''
   \<and> \<not> canonical_hex ''#1000000''
   \<and> extract_colors ''a { color: rgb(256, 0, 0) }'' = [''#1000000'']"
  by code_simp

text \<open>
  C5. Normalisation is not idempotent on every string it accepts: the result for an
  \<open>rgb()\<close> form with a channel above 255 is not accepted again.
\<close>

theorem normalize_not_idempotent:
  "normalize_color ''rgb(0, 0, 4096)'' = Some ''#00001000''
   \<and> normalize_color ''#00001000'' = None"
  by code_simp

end
